theory Spec2Isabelle
  imports Main
begin

section \<open>The process and its environment\<close>

text \<open>
  The package \<^verbatim>\<open>slashinit\<close> (second part of \<^verbatim>\<open>bootc.go\<close>) is a sequence of calls
  to the operating system and to collaborators (\<^verbatim>\<open>goes.Main\<close>, \<^verbatim>\<open>grab.NewRequest\<close>,
  \<^verbatim>\<open>url.FetchReqs\<close>, the board \<^verbatim>\<open>Hook\<close>). The model keeps every such call: a
  function of the source is a state transformer over the process state, each call is
  answered by a kernel \<open>K\<close> (an arbitrary function of the call and of the state of the
  world) and returns, beside its result and the new state, the events of its run:
  every call with its reply and every console line, in order.
  A Go \<^verbatim>\<open>panic\<close> is the result \<open>Panic\<close>; a call that never returns (a successful
  \<^verbatim>\<open>execve\<close> or \<^verbatim>\<open>kexec -e\<close> replaces the process image) is the result \<open>Gone\<close>;
  the endless loop of \<^verbatim>\<open>emergencyShell\<close> runs on fuel and is \<open>OutOfFuel\<close> when the
  fuel is spent.
\<close>

type_synonym path = string

datatype goerr = ENOENT | EOF | OtherErr string

datatype arg = AStr string | AErr goerr

datatype gopanic = Errorf string "arg list" | RuntimeError string

datatype call =
    Stat path
  | Mkdir path nat
  | Open path
  | Create path
  | Copy path path
  | Close path
  | Chmod path nat
  | Symlink string path
  | Mount string path string nat string
  | Unlink path
  | Rmdir path
  | Chdir path
  | Chroot path
  | Exec path "string list" "string list"
  | GoesMain "string list"
  | NewRequest string
  | FetchReqs nat "(string \<times> string) list"
  | Hook

datatype reply = Ret nat "goerr option" | Throws gopanic | NoRet

datatype event =
    Sys call reply
  | Println "arg list"
  | PrintRecovered gopanic
  | LogPrint "arg list"
  | Printf string

datatype 'a res = Val 'a | Panic gopanic | Gone | OutOfFuel

record 'w proc =
  world :: 'w
  environ :: "string \<Rightarrow> string option"
  pid :: nat
  args :: "string list"
  deferred :: "call list"

type_synonym 'w kernel = "call \<Rightarrow> 'w \<Rightarrow> reply \<times> 'w"

type_synonym ('w, 'a) prog = "'w proc \<Rightarrow> 'a res \<times> 'w proc \<times> event list"

abbreviation result :: "'a res \<times> 'w proc \<times> event list \<Rightarrow> 'a res" where
  "result x \<equiv> fst x"

abbreviation final :: "'a res \<times> 'w proc \<times> event list \<Rightarrow> 'w proc" where
  "final x \<equiv> fst (snd x)"

abbreviation events :: "'a res \<times> 'w proc \<times> event list \<Rightarrow> event list" where
  "events x \<equiv> snd (snd x)"

definition ret :: "'a \<Rightarrow> ('w, 'a) prog" where
  "ret a s = (Val a, s, [])"

definition panic :: "gopanic \<Rightarrow> ('w, 'a) prog" where
  "panic p s = (Panic p, s, [])"

definition bnd :: "('w, 'a) prog \<Rightarrow> ('a \<Rightarrow> ('w, 'b) prog) \<Rightarrow> ('w, 'b) prog" where
  "bnd m k s =
     (case m s of
        (Val a, s', es) \<Rightarrow> (case k a s' of (r, s'', es') \<Rightarrow> (r, s'', es @ es'))
      | (Panic p, s', es) \<Rightarrow> (Panic p, s', es)
      | (Gone, s', es) \<Rightarrow> (Gone, s', es)
      | (OutOfFuel, s', es) \<Rightarrow> (OutOfFuel, s', es))"

text \<open>
  What Go does with a deferred closure: when \<open>m\<close> has returned or panicked, \<open>k\<close> runs
  on its result. Nothing runs after a call that never returned.
\<close>

definition on_exit ::
  "('w, 'a) prog \<Rightarrow> ('a res \<Rightarrow> ('w, 'b) prog) \<Rightarrow> ('w, 'b) prog" where
  "on_exit m k s =
     (case m s of
        (Gone, s', es) \<Rightarrow> (Gone, s', es)
      | (OutOfFuel, s', es) \<Rightarrow> (OutOfFuel, s', es)
      | (r, s', es) \<Rightarrow> (case k r s' of (r', s'', es') \<Rightarrow> (r', s'', es @ es')))"

definition emit :: "event \<Rightarrow> ('w, unit) prog" where
  "emit e s = (Val (), s, [e])"

text \<open>One call: the kernel answers, the world moves on, the event records both.\<close>

definition sys :: "'w kernel \<Rightarrow> call \<Rightarrow> ('w, nat \<times> goerr option) prog" where
  "sys K c s =
     (case K c (world s) of
        (r, w') \<Rightarrow>
          ((case r of
              Ret n e \<Rightarrow> Val (n, e)
            | Throws p \<Rightarrow> Panic p
            | NoRet \<Rightarrow> Gone),
           s\<lparr>world := w'\<rparr>, [Sys c r]))"

definition syscall :: "'w kernel \<Rightarrow> call \<Rightarrow> ('w, goerr option) prog" where
  "syscall K c = bnd (sys K c) (\<lambda>r. ret (snd r))"

text \<open>\<^verbatim>\<open>os.IsNotExist(err)\<close>\<close>

definition isNotExist :: "goerr option \<Rightarrow> bool" where
  "isNotExist e = (e = Some ENOENT)"

text \<open>\<^verbatim>\<open>os.Getenv\<close>: the empty string when the variable is unset.\<close>

definition getenv :: "'w proc \<Rightarrow> string \<Rightarrow> string" where
  "getenv s k = (case environ s k of None \<Rightarrow> [] | Some v \<Rightarrow> v)"

section \<open>Helpers for the translation\<close>

text \<open>\<^verbatim>\<open>for _, x := range table { body }\<close>\<close>

primrec for_range :: "'a list \<Rightarrow> ('a \<Rightarrow> ('w, unit) prog) \<Rightarrow> ('w, unit) prog" where
  "for_range [] f = ret ()"
| "for_range (x # xs) f = bnd (f x) (\<lambda>_. for_range xs f)"

text \<open>
  \<^verbatim>\<open>defer f.Close()\<close> pushes the call on the running function's list; when the
  function returns or panics the list is run, last pushed first. The result of a
  deferred \<^verbatim>\<open>Close\<close> is dropped; a panic inside one replaces the pending result and
  the remaining calls still run.
\<close>

definition defer_call :: "call \<Rightarrow> ('w, unit) prog" where
  "defer_call c s = (Val (), s\<lparr>deferred := c # deferred s\<rparr>, [])"

primrec run_defers :: "'w kernel \<Rightarrow> call list \<Rightarrow> 'a res \<Rightarrow> ('w, 'a) prog" where
  "run_defers K [] r = (\<lambda>s. (r, s, []))"
| "run_defers K (c # cs) r =
     on_exit (sys K c) (\<lambda>r'. run_defers K cs (case r' of Panic p \<Rightarrow> Panic p | _ \<Rightarrow> r))"

definition with_defers :: "'w kernel \<Rightarrow> ('w, 'a) prog \<Rightarrow> ('w, 'a) prog" where
  "with_defers K m s =
     on_exit (\<lambda>s0. m (s0\<lparr>deferred := []\<rparr>))
       (\<lambda>r s'. run_defers K (deferred s') r (s'\<lparr>deferred := deferred s\<rparr>)) s"

text \<open>File modes are written in octal in the source.\<close>

definition octal :: "nat list \<Rightarrow> nat" where
  "octal ds = foldl (\<lambda>a d. 8 * a + d) 0 ds"

definition zero :: nat where
  "zero = 0"

definition MS_MOVE :: nat where
  "MS_MOVE = 8192"

definition Name :: string where
  "Name = ''/init''"

text \<open>
  \<^verbatim>\<open>os.Setenv\<close> (Unix): refused for an empty key, a key with \<^verbatim>\<open>=\<close> or NUL, a value
  with NUL.
\<close>

definition setenv :: "string \<Rightarrow> string \<Rightarrow> ('w, goerr option) prog" where
  "setenv k v s =
     (if k = [] \<or> CHR ''='' \<in> set k \<or> CHR 0x00 \<in> set k \<or> CHR 0x00 \<in> set v
      then (Val (Some (OtherErr ''invalid argument'')), s, [])
      else (Val None, s\<lparr>environ := (environ s)(k \<mapsto> v)\<rparr>, []))"

text \<open>\<^verbatim>\<open>strings.Split(s, sep)\<close> for a one-byte separator.\<close>

fun split_on :: "char \<Rightarrow> string \<Rightarrow> string list" where
  "split_on c [] = [[]]"
| "split_on c (x # xs) =
     (if x = c then [] # split_on c xs
      else (case split_on c xs of
              [] \<Rightarrow> [[x]]
            | w # ws \<Rightarrow> (x # w) # ws))"

text \<open>
  \<^verbatim>\<open>filepath.SplitList\<close> on Linux: the list separator is \<^verbatim>\<open>:\<close>, and the empty
  string is the empty list.
\<close>

definition SplitList :: "string \<Rightarrow> string list" where
  "SplitList p = (if p = [] then [] else split_on CHR '':'' p)"

section \<open>init\<close>

definition init_mounts :: "(path \<times> string \<times> string \<times> nat) list" where
  "init_mounts =
     [(''/dev'', ''devtmpfs'', ''devtmpfs'', octal [0,7,5,5]),
      (''/dev/pts'', ''devpts'', ''devpts'', octal [0,7,5,5]),
      (''/proc'', ''proc'', ''proc'', octal [0,5,5,5]),
      (''/sys'', ''sysfs'', ''sysfs'', octal [0,5,5,5]),
      (''/run'', ''tmpfs'', ''tmpfs'', octal [0,7,5,5])]"

definition init_links :: "(string \<times> path) list" where
  "init_links =
     [(''../proc/self/fd/0'', ''/dev/stdin''),
      (''../proc/self/fd/1'', ''/dev/stdout''),
      (''../proc/self/fd/2'', ''/dev/stderr'')]"

text \<open>
  The body of the first loop; \<^verbatim>\<open>continue\<close> after a failed \<^verbatim>\<open>Mkdir\<close> skips the
  mount of that entry.
\<close>

definition init_mount :: "'w kernel \<Rightarrow> path \<times> string \<times> string \<times> nat \<Rightarrow> ('w, unit) prog" where
  "init_mount K mnt =
     (case mnt of (dir, dev, fstype, mode) \<Rightarrow>
        bnd (syscall K (Stat dir)) (\<lambda>err.
        bnd (if isNotExist err
             then bnd (syscall K (Mkdir dir mode)) (\<lambda>err.
                    case err of
                      Some e \<Rightarrow>
                        bnd (emit (LogPrint [AStr ''err'', AStr dir, AStr '': '', AErr e]))
                          (\<lambda>_. ret False)
                    | None \<Rightarrow> ret True)
             else ret True) (\<lambda>go_on.
        if go_on
        then bnd (syscall K (Mount dev dir fstype zero [])) (\<lambda>err.
               case err of
                 Some e \<Rightarrow> emit (LogPrint [AStr ''err'', AStr dir, AStr '': '', AErr e])
               | None \<Rightarrow> ret ())
        else ret ())))"

definition init_link :: "'w kernel \<Rightarrow> string \<times> path \<Rightarrow> ('w, unit) prog" where
  "init_link K ln =
     (case ln of (src, dst) \<Rightarrow>
        bnd (syscall K (Stat dst)) (\<lambda>err.
        if isNotExist err
        then bnd (syscall K (Symlink src dst)) (\<lambda>err.
               case err of
                 Some e \<Rightarrow>
                   emit (LogPrint [AStr ''err'', AStr ''ln'', AStr dst, AStr ''->'', AStr src,
                                   AStr '':'', AErr e])
               | None \<Rightarrow> ret ())
        else ret ()))"

definition init :: "'w kernel \<Rightarrow> ('w, unit) prog" where
  "init K s =
     (if pid s \<noteq> 1 then ret () s
      else case args s of
             [] \<Rightarrow> panic (RuntimeError ''index out of range'') s
           | a0 # _ \<Rightarrow>
               if a0 \<noteq> Name then ret () s
               else bnd (for_range init_mounts (init_mount K))
                      (\<lambda>_. for_range init_links (init_link K)) s)"

section \<open>The skeleton of the new root\<close>

definition root_dirs :: "(path \<times> nat) list" where
  "root_dirs =
     [(''/bin'', octal [0,7,7,5]),
      (''/sbin'', octal [0,7,5,5]),
      (''/usr'', octal [0,7,5,5]),
      (''/usr/bin'', octal [0,7,5,5])]"

definition makeRootDirs :: "'w kernel \<Rightarrow> path \<Rightarrow> ('w, unit) prog" where
  "makeRootDirs K mountPoint =
     for_range root_dirs (\<lambda>dir. case dir of (name, mode) \<Rightarrow>
       bnd (syscall K (Stat (mountPoint @ name))) (\<lambda>err.
       if isNotExist err
       then bnd (syscall K (Mkdir (mountPoint @ name) mode)) (\<lambda>err.
              case err of
                Some e \<Rightarrow> panic (Errorf ''mkdir %s: %s'' [AStr (mountPoint @ name), AErr e])
              | None \<Rightarrow> ret ())
       else ret ()))"

definition root_files :: "(path \<times> path) list" where
  "root_files =
     [(''/init'', ''/usr/bin/goes''),
      (''/usr/bin/gdbserver'', ''/usr/bin/gdbserver'')]"

definition makeRootFile :: "'w kernel \<Rightarrow> path \<Rightarrow> path \<times> path \<Rightarrow> ('w, unit) prog" where
  "makeRootFile K mountPoint cp =
     (case cp of (src, dst) \<Rightarrow>
        bnd (syscall K (Stat (mountPoint @ dst))) (\<lambda>err. (\<lambda>s.
        (if isNotExist err \<or> getenv s ''goes'' = ''overwrite''
         then bnd (syscall K (Open src)) (\<lambda>err.
              case err of
                Some e \<Rightarrow> panic (Errorf ''open %s: %s'' [AStr src, AErr e])
              | None \<Rightarrow>
              bnd (defer_call (Close src)) (\<lambda>_.
              bnd (syscall K (Create (mountPoint @ dst))) (\<lambda>err.
              case err of
                Some e \<Rightarrow> panic (Errorf ''create %s: %s'' [AStr (mountPoint @ dst), AErr e])
              | None \<Rightarrow>
              bnd (defer_call (Close (mountPoint @ dst))) (\<lambda>_.
              bnd (syscall K (Copy (mountPoint @ dst) src)) (\<lambda>err.
              case err of
                Some e \<Rightarrow>
                  panic (Errorf ''copy %s to %s: %s''
                           [AStr src, AStr (mountPoint @ dst), AErr e])
              | None \<Rightarrow>
              bnd (syscall K (Chmod dst (octal [0,7,5,5]))) (\<lambda>err.
              case err of
                Some e \<Rightarrow> panic (Errorf ''chmod %s: %s'' [AStr (mountPoint @ dst), AErr e])
              | None \<Rightarrow> ret ()))))))
         else ret ()) s)))"

definition makeRootFiles :: "'w kernel \<Rightarrow> path \<Rightarrow> ('w, unit) prog" where
  "makeRootFiles K mountPoint =
     with_defers K (for_range root_files (makeRootFile K mountPoint))"

definition root_links :: "(string \<times> path) list" where
  "root_links = [(''../usr/bin/goes'', ''/sbin/init'')]"

definition makeRootLinks :: "'w kernel \<Rightarrow> path \<Rightarrow> ('w, unit) prog" where
  "makeRootLinks K mountPoint =
     for_range root_links (\<lambda>ln. case ln of (src, dst) \<Rightarrow>
       bnd (syscall K (Stat (mountPoint @ dst))) (\<lambda>err.
       if isNotExist err
       then bnd (syscall K (Symlink src (mountPoint @ dst))) (\<lambda>err.
              case err of
                Some e \<Rightarrow>
                  panic (Errorf ''ln %s->%s: %s'' [AStr src, AStr (mountPoint @ dst), AErr e])
              | None \<Rightarrow> ret ())
       else ret ()))"

definition vfs_moves :: "(path \<times> path \<times> nat) list" where
  "vfs_moves =
     [(''/run'', ''/run'', octal [0,7,5,5]),
      (''/sys'', ''/sysfs'', octal [0,5,5,5]),
      (''/proc'', ''/proc'', octal [0,5,5,5]),
      (''/dev'', ''/dev'', octal [0,7,5,5])]"

definition moveVirtualFileSystems :: "'w kernel \<Rightarrow> path \<Rightarrow> ('w, unit) prog" where
  "moveVirtualFileSystems K mountPoint =
     for_range vfs_moves (\<lambda>mv. case mv of (src, dst, mode) \<Rightarrow>
       bnd (syscall K (Stat (mountPoint @ dst))) (\<lambda>err.
       bnd (if isNotExist err
            then bnd (syscall K (Mkdir (mountPoint @ dst) mode)) (\<lambda>err.
                   case err of
                     Some e \<Rightarrow>
                       panic (Errorf ''mkdir %s: %s'' [AStr (mountPoint @ dst), AErr e])
                   | None \<Rightarrow> ret ())
            else ret ()) (\<lambda>_.
       bnd (syscall K (Mount src (mountPoint @ dst) [] MS_MOVE [])) (\<lambda>err.
       case err of
         Some e \<Rightarrow>
           panic (Errorf ''mount -o move %s %s: %s''
                    [AStr src, AStr (mountPoint @ dst), AErr e])
       | None \<Rightarrow> ret ()))))"

section \<open>Cleaning the old root\<close>

definition unlinkRootFiles :: "'w kernel \<Rightarrow> ('w, unit) prog" where
  "unlinkRootFiles K =
     for_range [''/usr/bin/gdbserver'', ''/init'', ''/bin/goes'']
       (\<lambda>fn. bnd (syscall K (Unlink fn)) (\<lambda>_. ret ()))"

definition rmdirRootDirs :: "'w kernel \<Rightarrow> ('w, unit) prog" where
  "rmdirRootDirs K =
     for_range [''/run'', ''/sys'', ''/proc'', ''/dev'', ''/usr/bin'', ''/usr'', ''/bin'']
       (\<lambda>dir. bnd (syscall K (Rmdir dir)) (\<lambda>_. ret ()))"

section \<open>The target environment\<close>

definition makeTargetDirs :: "'w kernel \<Rightarrow> ('w, unit) prog" where
  "makeTargetDirs K =
     for_range [(''/root'', octal [0,7,0,0]), (''/tmp'', octal [1,7,7,7]),
                (''/var'', octal [0,7,5,5])]
       (\<lambda>dir. case dir of (name, mode) \<Rightarrow>
         bnd (syscall K (Stat name)) (\<lambda>err.
         if isNotExist err
         then bnd (syscall K (Mkdir name mode)) (\<lambda>err.
                case err of
                  Some e \<Rightarrow> panic (Errorf ''mkdir %s: %s'' [AStr name, AErr e])
                | None \<Rightarrow> ret ())
         else ret ()))"

definition makeTargetLinks :: "'w kernel \<Rightarrow> ('w, unit) prog" where
  "makeTargetLinks K =
     for_range [(''../run'', ''/var/run'')]
       (\<lambda>ln. case ln of (src, dst) \<Rightarrow>
         bnd (syscall K (Stat dst)) (\<lambda>err.
         if isNotExist err
         then bnd (syscall K (Symlink src dst)) (\<lambda>err.
                case err of
                  Some e \<Rightarrow> panic (Errorf ''ln %s -> %s: %s'' [AStr dst, AStr src, AErr e])
                | None \<Rightarrow> ret ())
         else ret ()))"

definition mountTargetVirtualFilesystems :: "'w kernel \<Rightarrow> ('w, unit) prog" where
  "mountTargetVirtualFilesystems K =
     for_range [(''/tmp'', ''tmpfs'', ''tmpfs'')]
       (\<lambda>mnt. case mnt of (dir, dev, fstype) \<Rightarrow>
         bnd (syscall K (Mount dev dir fstype zero [])) (\<lambda>err.
         case err of
           Some e \<Rightarrow>
             panic (Errorf ''mount -t %s %s %s: %s'' [AStr fstype, AStr dev, AStr dir, AErr e])
         | None \<Rightarrow> ret ()))"

section \<open>pivotRoot\<close>

definition pivotRoot :: "'w kernel \<Rightarrow> path \<Rightarrow> string \<Rightarrow> string \<Rightarrow> ('w, unit) prog" where
  "pivotRoot K mountPoint root script =
     bnd (syscall K (Stat mountPoint)) (\<lambda>err.
     bnd (if isNotExist err
          then bnd (syscall K (Mkdir mountPoint (octal [0,7,5,5]))) (\<lambda>err.
                 case err of
                   Some e \<Rightarrow> panic (Errorf ''Error creating %s: %s'' [AStr mountPoint, AErr e])
                 | None \<Rightarrow> ret ())
          else ret ()) (\<lambda>_.
     bnd (syscall K (GoesMain [''mount'', root, mountPoint])) (\<lambda>err.
     case err of
       Some e \<Rightarrow>
         panic (Errorf ''Error mounting %s on %s: %s'' [AStr root, AStr mountPoint, AErr e])
     | None \<Rightarrow>
     bnd (if length script > 0
          then bnd (syscall K (GoesMain [''source'', script])) (\<lambda>err.
                 case err of
                   Some e \<Rightarrow>
                     panic (Errorf ''Error running boot script %s on %s: %s''
                              [AStr script, AStr root, AErr e])
                 | None \<Rightarrow> ret ())
          else ret ()) (\<lambda>_.
     bnd (makeRootDirs K mountPoint) (\<lambda>_.
     bnd (makeRootFiles K mountPoint) (\<lambda>_.
     bnd (makeRootLinks K mountPoint) (\<lambda>_.
     bnd (moveVirtualFileSystems K mountPoint) (\<lambda>_.
     bnd (syscall K (Chdir mountPoint)) (\<lambda>err.
     case err of
       Some e \<Rightarrow> panic (Errorf ''chdir %s: %s'' [AStr mountPoint, AErr e])
     | None \<Rightarrow>
     bnd (unlinkRootFiles K) (\<lambda>_.
     bnd (rmdirRootDirs K) (\<lambda>_.
     bnd (syscall K (Mount mountPoint ''/'' [] MS_MOVE [])) (\<lambda>err.
     case err of
       Some e \<Rightarrow> panic (Errorf ''mount %s /: %s'' [AStr mountPoint, AErr e])
     | None \<Rightarrow>
     bnd (syscall K (Chroot ''.'')) (\<lambda>err.
     case err of
       Some e \<Rightarrow> panic (Errorf ''chroot .:%s'' [AErr e])
     | None \<Rightarrow> ret ())))))))))))))"

section \<open>runSbinInit\<close>

definition sbininit :: path where
  "sbininit = ''/sbin/init''"

definition runSbinInit :: "'w kernel \<Rightarrow> ('w, unit) prog" where
  "runSbinInit K =
     bnd (setenv ''PATH'' ''/bin:/usr/bin'') (\<lambda>err.
     case err of
       Some e \<Rightarrow> panic (Errorf ''Setenv PATH: %s'' [AErr e])
     | None \<Rightarrow>
     bnd (setenv ''SHELL'' ''/bin/goes'') (\<lambda>err.
     case err of
       Some e \<Rightarrow> panic (Errorf ''Setenv SHELL: %s'' [AErr e])
     | None \<Rightarrow>
     bnd (syscall K (Chdir ''/root'')) (\<lambda>err.
     case err of
       Some e \<Rightarrow> panic (Errorf ''chdir /root: %s'' [AErr e])
     | None \<Rightarrow>
     bnd (setenv ''HOME'' ''/root'') (\<lambda>err.
     case err of
       Some e \<Rightarrow> panic (Errorf ''Setenv HOME: %s'' [AErr e])
     | None \<Rightarrow>
     bnd (\<lambda>s. (if length (getenv s ''TERM'') = 0
               then bnd (setenv ''TERM'' ''linux'') (\<lambda>err.
                      case err of
                        Some e \<Rightarrow> panic (Errorf ''Setenv TERM: %s'' [AErr e])
                      | None \<Rightarrow> ret ())
               else ret ()) s) (\<lambda>_.
     bnd (syscall K (Stat sbininit)) (\<lambda>err.
     case err of
       Some e \<Rightarrow>
         if isNotExist (Some e) then ret ()
         else panic (Errorf ''stat %s: %s'' [AStr sbininit, AErr e])
     | None \<Rightarrow>
     (\<lambda>s. bnd (syscall K (Exec sbininit [sbininit]
                  [''PATH='' @ getenv s ''PATH'',
                   ''SHELL='' @ getenv s ''SHELL'',
                   ''HOME='' @ getenv s ''HOME'',
                   ''TERM='' @ getenv s ''TERM''])) (\<lambda>err.
           case err of
             Some e \<Rightarrow> panic (Errorf ''exec %s: %s'' [AStr sbininit, AErr e])
           | None \<Rightarrow> ret ()) s)))))))"

section \<open>installer\<close>

definition kexec_args :: "string list" where
  "kexec_args =
     [''kexec'', ''-e'', ''-k'', ''kernel'', ''-i'', ''initramfs'', ''-c'',
      ''console=ttyS0,115200'']"

text \<open>
  One optional request: parameter \<open>i\<close> is requested under \<open>filename\<close> when it is there
  and not empty; \<open>Inl\<close> is the early \<^verbatim>\<open>return err\<close> of a refused URL.
\<close>

definition optional_request ::
  "'w kernel \<Rightarrow> string list \<Rightarrow> nat \<Rightarrow> string \<Rightarrow> (string \<times> string) list
     \<Rightarrow> ('w, goerr + (string \<times> string) list) prog" where
  "optional_request K params i filename reqs =
     (if length params \<ge> Suc i \<and> length (params ! i) > 0
      then bnd (syscall K (NewRequest (params ! i))) (\<lambda>err.
             case err of
               Some e \<Rightarrow> ret (Inl e)
             | None \<Rightarrow> ret (Inr (reqs @ [(params ! i, filename)])))
      else ret (Inr reqs))"

definition installer :: "'w kernel \<Rightarrow> string list \<Rightarrow> ('w, goerr option) prog" where
  "installer K params =
     (if length params < 1 \<or> length (params ! 0) = 0
      then ret (Some (OtherErr ''KERNEL: missing''))
      else
        bnd (syscall K (NewRequest (params ! 0))) (\<lambda>err.
        case err of
          Some e \<Rightarrow> ret (Some e)
        | None \<Rightarrow>
        bnd (optional_request K params 1 ''initramfs'' [(params ! 0, ''kernel'')]) (\<lambda>x.
        case x of
          Inl e \<Rightarrow> ret (Some e)
        | Inr reqs \<Rightarrow>
        bnd (optional_request K params 2 ''fdt'' reqs) (\<lambda>x.
        case x of
          Inl e \<Rightarrow> ret (Some e)
        | Inr reqs \<Rightarrow>
        bnd (sys K (FetchReqs 0 reqs)) (\<lambda>r.
        case r of (successes, err) \<Rightarrow>
        (case err of
           Some e \<Rightarrow> ret (Some e)
         | None \<Rightarrow>
         bnd (if successes = length reqs
              then emit (Printf ''All files loaded successfully!'')
              else ret ()) (\<lambda>_.
         syscall K (GoesMain kexec_args))))))))"

section \<open>emergencyShell\<close>

definition banner :: string where
  "banner = ''Dropping into emergency goes shell...'' @ [CHR 0x0A]"

fun emergencyShell :: "nat \<Rightarrow> 'w kernel \<Rightarrow> ('w, unit) prog" where
  "emergencyShell 0 K = (\<lambda>s. (OutOfFuel, s, []))"
| "emergencyShell (Suc n) K =
     bnd (emit (Println [AStr banner])) (\<lambda>_.
     bnd (syscall K (GoesMain [''cli''])) (\<lambda>err.
     bnd (case err of
            None \<Rightarrow> ret ()
          | Some e \<Rightarrow> if e \<noteq> EOF then emit (Println [AErr e]) else ret ()) (\<lambda>_.
     emergencyShell n K)))"

text \<open>What one turn of the loop writes to the trace when the shell returns \<open>err\<close>.\<close>

definition shell_iteration :: "nat \<times> goerr option \<Rightarrow> event list" where
  "shell_iteration r =
     [Println [AStr banner], Sys (GoesMain [''cli'']) (Ret (fst r) (snd r))] @
     (case snd r of
        None \<Rightarrow> []
      | Some e \<Rightarrow> if e \<noteq> EOF then [Println [AErr e]] else [])"

definition always_returns :: "'w kernel \<Rightarrow> call \<Rightarrow> bool" where
  "always_returns K c = (\<forall>w. \<exists>n e. fst (K c w) = Ret n e)"

text \<open>
  What the shell collaborator returns, call after call, from the world \<open>w\<close> on: the
  replies of \<open>K\<close> to \<^verbatim>\<open>goes.Main("cli")\<close> along the worlds \<open>K\<close> itself moves to. The
  list stops at a call that panics or never returns.
\<close>

fun shell_replies :: "nat \<Rightarrow> 'w kernel \<Rightarrow> 'w \<Rightarrow> (nat \<times> goerr option) list" where
  "shell_replies 0 K w = []"
| "shell_replies (Suc n) K w =
     (case K (GoesMain [''cli'']) w of
        (r, w') \<Rightarrow>
          (case r of
             Ret m e \<Rightarrow> (m, e) # shell_replies n K w'
           | Throws p \<Rightarrow> []
           | NoRet \<Rightarrow> []))"

section \<open>Main\<close>

definition Main_body :: "'w kernel \<Rightarrow> string list \<Rightarrow> ('w, goerr option) prog" where
  "Main_body K goesRoot =
     bnd (syscall K Hook) (\<lambda>err.
     case err of
       Some e \<Rightarrow> panic (Errorf ''Error from board hook: '' [AErr e])
     | None \<Rightarrow>
     (let root = (if length goesRoot \<ge> 1 \<and> length (goesRoot ! 0) > 0
                  then goesRoot ! 0 else []);
          script = (if length goesRoot \<ge> 2 \<and> length (goesRoot ! 1) > 0
                    then goesRoot ! 1 else [])
      in
     bnd (if length root > 0 then pivotRoot K ''/newroot'' root script else ret ()) (\<lambda>_.
     bnd (makeTargetDirs K) (\<lambda>_.
     bnd (makeTargetLinks K) (\<lambda>_.
     bnd (mountTargetVirtualFilesystems K) (\<lambda>_.
     bnd (runSbinInit K) (\<lambda>_.
     syscall K (GoesMain [''start'']))))))))"

text \<open>
  The outer deferred closure, after it has registered the inner one: it recovers a
  pending panic (printing it) and runs the installer when \<^verbatim>\<open>goesinstaller\<close> is set.
\<close>

definition Main_recovery :: "'w kernel \<Rightarrow> string \<Rightarrow> goerr option res \<Rightarrow> ('w, unit) prog" where
  "Main_recovery K goesinstaller r =
     bnd (case r of Panic p \<Rightarrow> emit (PrintRecovered p) | _ \<Rightarrow> ret ()) (\<lambda>_.
     if length goesinstaller > 0
     then (let params = split_on CHR '','' goesinstaller in
           bnd (installer K params) (\<lambda>err.
           case err of
             Some e \<Rightarrow>
               emit (LogPrint [AStr ''err'', AStr ''installer'', AStr (params ! 0),
                               AStr '':'', AErr e])
           | None \<Rightarrow> ret ()))
     else ret ())"

text \<open>
  The deferred closures of \<^verbatim>\<open>Main\<close>, run when its body has returned (\<open>Val\<close>) or
  panicked: the outer one, then the inner one, which recovers a panic of the outer one
  and enters \<^verbatim>\<open>emergencyShell\<close>. A process whose image was replaced runs neither.
\<close>

definition Main_deferred ::
  "nat \<Rightarrow> 'w kernel \<Rightarrow> string \<Rightarrow> goerr option res \<Rightarrow> ('w, goerr option) prog" where
  "Main_deferred fuel K goesinstaller r =
     on_exit (Main_recovery K goesinstaller r) (\<lambda>r'.
       bnd (case r' of Panic p \<Rightarrow> emit (PrintRecovered p) | _ \<Rightarrow> ret ()) (\<lambda>_.
       bnd (emergencyShell fuel K) (\<lambda>_.
       ret (case r of Val err \<Rightarrow> err | _ \<Rightarrow> None))))"

definition Main :: "nat \<Rightarrow> 'w kernel \<Rightarrow> ('w, goerr option) prog" where
  "Main fuel K s =
     (let goesRoot = SplitList (getenv s ''goesroot'');
          goesinstaller = getenv s ''goesinstaller''
      in on_exit (Main_body K goesRoot) (Main_deferred fuel K goesinstaller) s)"

section \<open>Concrete environments for the witnesses\<close>

definition proc0 :: "unit proc" where
  "proc0 = \<lparr>world = (), environ = (\<lambda>_. None), pid = 1, args = [''/init''],
             deferred = []\<rparr>"

definition failing_kernel :: "unit kernel" where
  "failing_kernel c w = (Ret 0 (Some (OtherErr ''fail'')), w)"

text \<open>
  A shell that returns end-of-input the first time, no error the second time and the
  error \<^verbatim>\<open>fail\<close> from then on; the world counts the calls.
\<close>

definition scripted_shell :: "nat kernel" where
  "scripted_shell c w =
     (Ret 0 (if w = 0 then Some EOF else if w = 1 then None else Some (OtherErr ''fail'')),
      Suc w)"

definition proc_scripted :: "nat proc" where
  "proc_scripted = \<lparr>world = 0, environ = (\<lambda>_. None), pid = 1, args = [''/init''],
                     deferred = []\<rparr>"

section \<open>Segments of pivotRoot and the calls of each part of the program\<close>

text \<open>
  For the proofs the body of \<^verbatim>\<open>pivotRoot\<close> is cut in three consecutive segments (lemma
  \<open>pivotRoot_split\<close> below shows that they compose to \<open>pivotRoot\<close>): mounting the new
  root and running the boot script; populating it, moving the virtual filesystems and
  changing directory; cleaning the old root and switching. The predicates that follow
  say which calls each part of the program can make.
\<close>

definition pivot_mount :: "'w kernel \<Rightarrow> path \<Rightarrow> string \<Rightarrow> string \<Rightarrow> ('w, unit) prog" where
  "pivot_mount K mountPoint root script =
     bnd (syscall K (Stat mountPoint)) (\<lambda>err.
     bnd (if isNotExist err
          then bnd (syscall K (Mkdir mountPoint (octal [0,7,5,5]))) (\<lambda>err.
                 case err of
                   Some e \<Rightarrow> panic (Errorf ''Error creating %s: %s'' [AStr mountPoint, AErr e])
                 | None \<Rightarrow> ret ())
          else ret ()) (\<lambda>_.
     bnd (syscall K (GoesMain [''mount'', root, mountPoint])) (\<lambda>err.
     case err of
       Some e \<Rightarrow>
         panic (Errorf ''Error mounting %s on %s: %s'' [AStr root, AStr mountPoint, AErr e])
     | None \<Rightarrow>
     (if length script > 0
      then bnd (syscall K (GoesMain [''source'', script])) (\<lambda>err.
             case err of
               Some e \<Rightarrow>
                 panic (Errorf ''Error running boot script %s on %s: %s''
                          [AStr script, AStr root, AErr e])
             | None \<Rightarrow> ret ())
      else ret ()))))"

definition pivot_populate :: "'w kernel \<Rightarrow> path \<Rightarrow> ('w, unit) prog" where
  "pivot_populate K mountPoint =
     bnd (makeRootDirs K mountPoint) (\<lambda>_.
     bnd (makeRootFiles K mountPoint) (\<lambda>_.
     bnd (makeRootLinks K mountPoint) (\<lambda>_.
     bnd (moveVirtualFileSystems K mountPoint) (\<lambda>_.
     bnd (syscall K (Chdir mountPoint)) (\<lambda>err.
     case err of
       Some e \<Rightarrow> panic (Errorf ''chdir %s: %s'' [AStr mountPoint, AErr e])
     | None \<Rightarrow> ret ())))))"

definition pivot_switch :: "'w kernel \<Rightarrow> path \<Rightarrow> ('w, unit) prog" where
  "pivot_switch K mountPoint =
     bnd (unlinkRootFiles K) (\<lambda>_.
     bnd (rmdirRootDirs K) (\<lambda>_.
     bnd (syscall K (Mount mountPoint ''/'' [] MS_MOVE [])) (\<lambda>err.
     case err of
       Some e \<Rightarrow> panic (Errorf ''mount %s /: %s'' [AStr mountPoint, AErr e])
     | None \<Rightarrow>
     bnd (syscall K (Chroot ''.'')) (\<lambda>err.
     case err of
       Some e \<Rightarrow> panic (Errorf ''chroot .:%s'' [AErr e])
     | None \<Rightarrow> ret ()))))"

definition skeleton_paths :: "path list" where
  "skeleton_paths =
     map fst root_dirs @ map snd root_files @ map snd root_links @ map (\<lambda>mv. fst (snd mv)) vfs_moves"

definition under :: "path \<Rightarrow> path \<Rightarrow> bool" where
  "under mp p = (p \<in> set (map (\<lambda>x. mp @ x) skeleton_paths))"

fun mount_call :: "path \<Rightarrow> call \<Rightarrow> bool" where
  "mount_call mp (Stat p) = (p = mp)"
| "mount_call mp (Mkdir p m) = (p = mp)"
| "mount_call mp (GoesMain as) = (take 1 as = [''mount''] \<or> take 1 as = [''source''])"
| "mount_call mp _ = False"

fun populate_call :: "path \<Rightarrow> call \<Rightarrow> bool" where
  "populate_call mp (Stat p) = under mp p"
| "populate_call mp (Mkdir p m) = under mp p"
| "populate_call mp (Open p) = True"
| "populate_call mp (Create p) = under mp p"
| "populate_call mp (Copy d s) = under mp d"
| "populate_call mp (Close p) = True"
| "populate_call mp (Chmod p m) = True"
| "populate_call mp (Symlink t p) = under mp p"
| "populate_call mp (Mount src tgt fs fl d) = under mp tgt"
| "populate_call mp (Chdir p) = (p = mp)"
| "populate_call mp _ = False"

fun cleanup_call :: "call \<Rightarrow> bool" where
  "cleanup_call (Unlink p) = True"
| "cleanup_call (Rmdir p) = True"
| "cleanup_call _ = False"

fun moveroot_call :: "call \<Rightarrow> bool" where
  "moveroot_call (Mount src tgt fs fl d) = (tgt = ''/'')"
| "moveroot_call (Chroot p) = True"
| "moveroot_call _ = False"

definition switch_call :: "call \<Rightarrow> bool" where
  "switch_call c = (cleanup_call c \<or> moveroot_call c)"

fun target_call :: "call \<Rightarrow> bool" where
  "target_call (Stat p) = (p \<in> set [''/root'', ''/tmp'', ''/var'', ''/var/run''])"
| "target_call (Mkdir p m) = (p \<in> set [''/root'', ''/tmp'', ''/var''])"
| "target_call (Symlink t p) = (p = ''/var/run'')"
| "target_call (Mount src tgt fs fl d) = (tgt = ''/tmp'')"
| "target_call _ = False"

fun sbininit_call :: "call \<Rightarrow> bool" where
  "sbininit_call (Chdir p) = (p = ''/root'')"
| "sbininit_call (Stat p) = (p = sbininit)"
| "sbininit_call (Exec p a e) = (p = sbininit)"
| "sbininit_call _ = False"

fun recovery_call :: "call \<Rightarrow> bool" where
  "recovery_call (NewRequest u) = True"
| "recovery_call (FetchReqs n reqs) = True"
| "recovery_call (GoesMain as) = (as = kexec_args \<or> as = [''cli''])"
| "recovery_call _ = False"

definition only_calls :: "(call \<Rightarrow> bool) \<Rightarrow> event \<Rightarrow> bool" where
  "only_calls F e = (case e of Sys c r \<Rightarrow> F c | _ \<Rightarrow> True)"

definition Main_pivot :: "'w kernel \<Rightarrow> string list \<Rightarrow> ('w, unit) prog" where
  "Main_pivot K goesRoot =
     (let root = (if length goesRoot \<ge> 1 \<and> length (goesRoot ! 0) > 0
                  then goesRoot ! 0 else []);
          script = (if length goesRoot \<ge> 2 \<and> length (goesRoot ! 1) > 0
                    then goesRoot ! 1 else [])
      in if length root > 0 then pivotRoot K ''/newroot'' root script else ret ())"

definition Main_finalize :: "'w kernel \<Rightarrow> ('w, goerr option) prog" where
  "Main_finalize K =
     bnd (makeTargetDirs K) (\<lambda>_.
     bnd (makeTargetLinks K) (\<lambda>_.
     bnd (mountTargetVirtualFilesystems K) (\<lambda>_.
     bnd (runSbinInit K) (\<lambda>_.
     syscall K (GoesMain [''start''])))))"

definition finalize_call :: "call \<Rightarrow> bool" where
  "finalize_call c = (target_call c \<or> sbininit_call c \<or> c = GoesMain [''start''])"

definition pivot_call :: "path \<Rightarrow> call \<Rightarrow> bool" where
  "pivot_call mp c = (mount_call mp c \<or> populate_call mp c \<or> switch_call c)"

definition before_moveroot :: "path \<Rightarrow> call \<Rightarrow> bool" where
  "before_moveroot mp c = (c = Hook \<or> mount_call mp c \<or> populate_call mp c \<or> cleanup_call c)"

definition busy_kernel :: "unit kernel" where
  "busy_kernel c w =
     (case c of
        Mount src tgt fs fl d \<Rightarrow>
          if tgt = ''/'' then (Ret 0 (Some (OtherErr ''EBUSY'')), w) else (Ret 0 None, w)
      | _ \<Rightarrow> (Ret 0 None, w))"

definition proc_root :: "unit proc" where
  "proc_root = proc0\<lparr>environ := [''goesroot'' \<mapsto> ''/dev/sda1:/etc/boot.conf'']\<rparr>"

fun is_cleanup :: "event \<Rightarrow> bool" where
  "is_cleanup (Sys c r) = cleanup_call c"
| "is_cleanup _ = False"

definition fresh_kernel :: "unit kernel" where
  "fresh_kernel c w =
     (case c of
        Stat p \<Rightarrow> (Ret 0 (Some ENOENT), w)
      | _ \<Rightarrow> (Ret 0 None, w))"

text \<open>What \<open>pivotRoot\<close> does on a fresh root when every call succeeds.\<close>

definition fresh_pivot_events :: "event list" where
  "fresh_pivot_events =
    [Sys (Stat ''/newroot'') (Ret 0 (Some ENOENT)),
     Sys (Mkdir ''/newroot'' (octal [0,7,5,5])) (Ret 0 None),
     Sys (GoesMain [''mount'', ''/dev/sda1'', ''/newroot'']) (Ret 0 None),
     Sys (GoesMain [''source'', ''/etc/boot.conf'']) (Ret 0 None),
     Sys (Stat ''/newroot/bin'') (Ret 0 (Some ENOENT)),
     Sys (Mkdir ''/newroot/bin'' (octal [0,7,7,5])) (Ret 0 None),
     Sys (Stat ''/newroot/sbin'') (Ret 0 (Some ENOENT)),
     Sys (Mkdir ''/newroot/sbin'' (octal [0,7,5,5])) (Ret 0 None),
     Sys (Stat ''/newroot/usr'') (Ret 0 (Some ENOENT)),
     Sys (Mkdir ''/newroot/usr'' (octal [0,7,5,5])) (Ret 0 None),
     Sys (Stat ''/newroot/usr/bin'') (Ret 0 (Some ENOENT)),
     Sys (Mkdir ''/newroot/usr/bin'' (octal [0,7,5,5])) (Ret 0 None),
     Sys (Stat ''/newroot/usr/bin/goes'') (Ret 0 (Some ENOENT)),
     Sys (Open ''/init'') (Ret 0 None),
     Sys (Create ''/newroot/usr/bin/goes'') (Ret 0 None),
     Sys (Copy ''/newroot/usr/bin/goes'' ''/init'') (Ret 0 None),
     Sys (Chmod ''/usr/bin/goes'' (octal [0,7,5,5])) (Ret 0 None),
     Sys (Stat ''/newroot/usr/bin/gdbserver'') (Ret 0 (Some ENOENT)),
     Sys (Open ''/usr/bin/gdbserver'') (Ret 0 None),
     Sys (Create ''/newroot/usr/bin/gdbserver'') (Ret 0 None),
     Sys (Copy ''/newroot/usr/bin/gdbserver'' ''/usr/bin/gdbserver'') (Ret 0 None),
     Sys (Chmod ''/usr/bin/gdbserver'' (octal [0,7,5,5])) (Ret 0 None),
     Sys (Close ''/newroot/usr/bin/gdbserver'') (Ret 0 None),
     Sys (Close ''/usr/bin/gdbserver'') (Ret 0 None),
     Sys (Close ''/newroot/usr/bin/goes'') (Ret 0 None),
     Sys (Close ''/init'') (Ret 0 None),
     Sys (Stat ''/newroot/sbin/init'') (Ret 0 (Some ENOENT)),
     Sys (Symlink ''../usr/bin/goes'' ''/newroot/sbin/init'') (Ret 0 None),
     Sys (Stat ''/newroot/run'') (Ret 0 (Some ENOENT)),
     Sys (Mkdir ''/newroot/run'' (octal [0,7,5,5])) (Ret 0 None),
     Sys (Mount ''/run'' ''/newroot/run'' [] MS_MOVE []) (Ret 0 None),
     Sys (Stat ''/newroot/sysfs'') (Ret 0 (Some ENOENT)),
     Sys (Mkdir ''/newroot/sysfs'' (octal [0,5,5,5])) (Ret 0 None),
     Sys (Mount ''/sys'' ''/newroot/sysfs'' [] MS_MOVE []) (Ret 0 None),
     Sys (Stat ''/newroot/proc'') (Ret 0 (Some ENOENT)),
     Sys (Mkdir ''/newroot/proc'' (octal [0,5,5,5])) (Ret 0 None),
     Sys (Mount ''/proc'' ''/newroot/proc'' [] MS_MOVE []) (Ret 0 None),
     Sys (Stat ''/newroot/dev'') (Ret 0 (Some ENOENT)),
     Sys (Mkdir ''/newroot/dev'' (octal [0,7,5,5])) (Ret 0 None),
     Sys (Mount ''/dev'' ''/newroot/dev'' [] MS_MOVE []) (Ret 0 None),
     Sys (Chdir ''/newroot'') (Ret 0 None),
     Sys (Unlink ''/usr/bin/gdbserver'') (Ret 0 None),
     Sys (Unlink ''/init'') (Ret 0 None),
     Sys (Unlink ''/bin/goes'') (Ret 0 None),
     Sys (Rmdir ''/run'') (Ret 0 None),
     Sys (Rmdir ''/sys'') (Ret 0 None),
     Sys (Rmdir ''/proc'') (Ret 0 None),
     Sys (Rmdir ''/dev'') (Ret 0 None),
     Sys (Rmdir ''/usr/bin'') (Ret 0 None),
     Sys (Rmdir ''/usr'') (Ret 0 None),
     Sys (Rmdir ''/bin'') (Ret 0 None),
     Sys (Mount ''/newroot'' ''/'' [] MS_MOVE []) (Ret 0 None),
     Sys (Chroot ''.'') (Ret 0 None)]"

definition before_finalize :: "call \<Rightarrow> bool" where
  "before_finalize c = (c = Hook \<or> pivot_call ''/newroot'' c \<or> target_call c)"

definition before_exec :: "call \<Rightarrow> bool" where
  "before_exec c = (before_finalize c \<or> c = Chdir ''/root'' \<or> c = Stat sbininit)"

text \<open>
  A kernel on which \<^verbatim>\<open>/sbin/init\<close> is absent, and one on which it exists and cannot be
  executed; every other call succeeds. No \<^verbatim>\<open>goesroot\<close> is set in \<open>proc0\<close>.
\<close>

definition noinit_kernel :: "unit kernel" where
  "noinit_kernel c w =
     (case c of
        Stat p \<Rightarrow> if p = sbininit then (Ret 0 (Some ENOENT), w) else (Ret 0 None, w)
      | _ \<Rightarrow> (Ret 0 None, w))"

definition noexec_kernel :: "unit kernel" where
  "noexec_kernel c w =
     (case c of
        Exec p a e \<Rightarrow> (Ret 0 (Some (OtherErr ''EACCES'')), w)
      | _ \<Rightarrow> (Ret 0 None, w))"

section \<open>Events a program can produce\<close>

text \<open>
  \<open>emits P D m\<close>: every event of a run of \<open>m\<close> satisfies \<open>P\<close>, and the calls it leaves
  deferred satisfy \<open>D\<close> when those it found deferred did.
\<close>

definition emits :: "(event \<Rightarrow> bool) \<Rightarrow> (call \<Rightarrow> bool) \<Rightarrow> ('w, 'a) prog \<Rightarrow> bool" where
  "emits P D m =
     (\<forall>s. list_all D (deferred s) \<longrightarrow>
          list_all P (events (m s)) \<and>
          (result (m s) \<noteq> Gone \<and> result (m s) \<noteq> OutOfFuel
             \<longrightarrow> list_all D (deferred (final (m s)))))"

section \<open>Basic facts\<close>

lemma result_bnd:
  "result (bnd m k s) =
     (case result (m s) of Val a \<Rightarrow> result (k a (final (m s))) | Panic p \<Rightarrow> Panic p
      | Gone \<Rightarrow> Gone | OutOfFuel \<Rightarrow> OutOfFuel)"
  by (simp add: bnd_def split: prod.splits res.splits)

lemma final_bnd:
  "final (bnd m k s) =
     (case result (m s) of Val a \<Rightarrow> final (k a (final (m s))) | _ \<Rightarrow> final (m s))"
  by (simp add: bnd_def split: prod.splits res.splits)

lemma events_bnd:
  "events (bnd m k s) =
     events (m s) @ (case result (m s) of Val a \<Rightarrow> events (k a (final (m s))) | _ \<Rightarrow> [])"
  by (simp add: bnd_def split: prod.splits res.splits)

lemma result_on_exit:
  "result (on_exit m k s) =
     (case result (m s) of Gone \<Rightarrow> Gone | OutOfFuel \<Rightarrow> OutOfFuel
      | r \<Rightarrow> result (k r (final (m s))))"
  by (simp add: on_exit_def split: prod.splits res.splits)

lemma final_on_exit:
  "final (on_exit m k s) =
     (case result (m s) of Gone \<Rightarrow> final (m s) | OutOfFuel \<Rightarrow> final (m s)
      | r \<Rightarrow> final (k r (final (m s))))"
  by (simp add: on_exit_def split: prod.splits res.splits)

lemma events_on_exit:
  "events (on_exit m k s) =
     events (m s) @ (case result (m s) of Gone \<Rightarrow> [] | OutOfFuel \<Rightarrow> []
      | r \<Rightarrow> events (k r (final (m s))))"
  by (simp add: on_exit_def split: prod.splits res.splits)

lemma result_sys:
  "result (sys K c s) =
     (case fst (K c (world s)) of Ret n e \<Rightarrow> Val (n, e) | Throws p \<Rightarrow> Panic p | NoRet \<Rightarrow> Gone)"
  by (simp add: sys_def split: prod.splits)

lemma final_sys: "final (sys K c s) = s\<lparr>world := snd (K c (world s))\<rparr>"
  by (simp add: sys_def split: prod.splits)

lemma events_sys: "events (sys K c s) = [Sys c (fst (K c (world s)))]"
  by (simp add: sys_def split: prod.splits)

lemma result_syscall:
  "result (syscall K c s) =
     (case fst (K c (world s)) of Ret n e \<Rightarrow> Val e | Throws p \<Rightarrow> Panic p | NoRet \<Rightarrow> Gone)"
  by (simp add: syscall_def result_bnd result_sys ret_def split: reply.splits)

lemma final_syscall: "final (syscall K c s) = s\<lparr>world := snd (K c (world s))\<rparr>"
  by (simp add: syscall_def final_bnd final_sys result_sys ret_def split: reply.splits)

lemma events_syscall: "events (syscall K c s) = [Sys c (fst (K c (world s)))]"
  by (simp add: syscall_def events_bnd events_sys result_sys ret_def split: reply.splits)

lemma emitsD:
  "emits P D m \<Longrightarrow> list_all D (deferred s) \<Longrightarrow> e \<in> set (events (m s)) \<Longrightarrow> P e"
  by (simp add: emits_def list_all_iff)

lemma emits_ret: "emits P D (ret a)"
  by (simp add: emits_def ret_def)

lemma emits_panic: "emits P D (panic p)"
  by (simp add: emits_def panic_def)

lemma emits_emit: "P e \<Longrightarrow> emits P D (emit e)"
  by (simp add: emits_def emit_def)

lemma emits_sys: "(\<And>r. P (Sys c r)) \<Longrightarrow> emits P D (sys K c)"
  by (simp add: emits_def events_sys final_sys)

lemma emits_syscall: "(\<And>r. P (Sys c r)) \<Longrightarrow> emits P D (syscall K c)"
  by (simp add: emits_def events_syscall final_syscall)

lemma emits_setenv: "emits P D (setenv k v)"
  by (simp add: emits_def setenv_def)

lemma emits_defer_call: "D c \<Longrightarrow> emits P D (defer_call c)"
  by (simp add: emits_def defer_call_def)

lemma emits_bnd:
  assumes "emits P D m" and "\<And>a. emits P D (k a)"
  shows "emits P D (bnd m k)"
  unfolding emits_def
proof (intro allI impI)
  fix s :: "'a proc"
  assume d: "list_all D (deferred s)"
  from assms(1) d have m: "list_all P (events (m s))"
    "result (m s) \<noteq> Gone \<and> result (m s) \<noteq> OutOfFuel \<longrightarrow> list_all D (deferred (final (m s)))"
    by (simp_all add: emits_def)
  show "list_all P (events (bnd m k s)) \<and>
      (result (bnd m k s) \<noteq> Gone \<and> result (bnd m k s) \<noteq> OutOfFuel
         \<longrightarrow> list_all D (deferred (final (bnd m k s))))"
  proof (cases "result (m s)")
    case (Val a)
    with m(2) have "list_all D (deferred (final (m s)))" by simp
    with assms(2) [of a]
    have "list_all P (events (k a (final (m s))))"
      "result (k a (final (m s))) \<noteq> Gone \<and> result (k a (final (m s))) \<noteq> OutOfFuel
         \<longrightarrow> list_all D (deferred (final (k a (final (m s)))))"
      by (simp_all add: emits_def)
    with m Val show ?thesis by (simp add: events_bnd final_bnd result_bnd)
  qed (use m in \<open>simp_all add: events_bnd final_bnd result_bnd\<close>)
qed

lemma emits_on_exit:
  assumes "emits P D m" and "\<And>r. emits P D (k r)"
  shows "emits P D (on_exit m k)"
  unfolding emits_def
proof (intro allI impI)
  fix s :: "'a proc"
  assume d: "list_all D (deferred s)"
  from assms(1) d have m: "list_all P (events (m s))"
    "result (m s) \<noteq> Gone \<and> result (m s) \<noteq> OutOfFuel \<longrightarrow> list_all D (deferred (final (m s)))"
    by (simp_all add: emits_def)
  have k: "list_all D (deferred (final (m s))) \<Longrightarrow>
    list_all P (events (k (result (m s)) (final (m s)))) \<and>
    (result (k (result (m s)) (final (m s))) \<noteq> Gone
       \<and> result (k (result (m s)) (final (m s))) \<noteq> OutOfFuel
       \<longrightarrow> list_all D (deferred (final (k (result (m s)) (final (m s))))))"
    using assms(2) [of "result (m s)"] by (simp add: emits_def)
  show "list_all P (events (on_exit m k s)) \<and>
      (result (on_exit m k s) \<noteq> Gone \<and> result (on_exit m k s) \<noteq> OutOfFuel
         \<longrightarrow> list_all D (deferred (final (on_exit m k s))))"
    using m k
    by (cases "result (m s)") (simp_all add: events_on_exit final_on_exit result_on_exit)
qed

lemma emits_for_range:
  "(\<And>x. x \<in> set xs \<Longrightarrow> emits P D (f x)) \<Longrightarrow> emits P D (for_range xs f)"
  by (induction xs) (simp_all add: emits_ret emits_bnd)

lemma emits_if:
  "(b \<Longrightarrow> emits P D m) \<Longrightarrow> (\<not> b \<Longrightarrow> emits P D m') \<Longrightarrow> emits P D (if b then m else m')"
  by simp

lemma emits_case_option:
  "(x = None \<Longrightarrow> emits P D m) \<Longrightarrow> (\<And>e. x = Some e \<Longrightarrow> emits P D (k e))
     \<Longrightarrow> emits P D (case x of None \<Rightarrow> m | Some e \<Rightarrow> k e)"
  by (cases x) simp_all

lemma emits_case_sum:
  "(\<And>a. emits P D (f a)) \<Longrightarrow> (\<And>b. emits P D (g b))
     \<Longrightarrow> emits P D (case x of Inl a \<Rightarrow> f a | Inr b \<Rightarrow> g b)"
  by (cases x) simp_all

lemma emits_case_prod:
  "(\<And>a b. x = (a, b) \<Longrightarrow> emits P D (f a b)) \<Longrightarrow> emits P D (case x of (a, b) \<Rightarrow> f a b)"
  by (cases x) simp

lemma emits_case_res:
  "(\<And>a. emits P D (f a)) \<Longrightarrow> (\<And>p. emits P D (g p)) \<Longrightarrow> emits P D h \<Longrightarrow> emits P D i
     \<Longrightarrow> emits P D (case x of Val a \<Rightarrow> f a | Panic p \<Rightarrow> g p | Gone \<Rightarrow> h | OutOfFuel \<Rightarrow> i)"
  by (cases x) simp_all

lemma emits_state: "(\<And>s. emits P D (f s)) \<Longrightarrow> emits P D (\<lambda>s. f s s)"
  by (simp add: emits_def)

lemma run_defers_deferred: "deferred (final (run_defers K cs r s)) = deferred s"
proof (induction cs arbitrary: r s)
  case Nil
  show ?case by simp
next
  case (Cons c cs)
  show ?case
    by (cases "fst (K c (world s))") (simp_all add: final_on_exit result_sys final_sys Cons)
qed

lemma run_defers_events:
  "list_all (\<lambda>c. \<forall>r. P (Sys c r)) cs \<Longrightarrow> list_all P (events (run_defers K cs r s))"
proof (induction cs arbitrary: r s)
  case Nil
  show ?case by simp
next
  case (Cons c cs)
  then show ?case
    by (cases "fst (K c (world s))") (simp_all add: events_on_exit result_sys final_sys events_sys)
qed

lemma emits_with_defers:
  assumes "emits P (\<lambda>c. \<forall>r. P (Sys c r)) m"
  shows "emits P D (with_defers K m)"
  unfolding emits_def
proof (intro allI impI)
  fix s :: "'a proc"
  assume d: "list_all D (deferred s)"
  let ?s0 = "s\<lparr>deferred := []\<rparr>"
  from assms have m: "list_all P (events (m ?s0))"
    "result (m ?s0) \<noteq> Gone \<and> result (m ?s0) \<noteq> OutOfFuel
       \<longrightarrow> list_all (\<lambda>c. \<forall>r. P (Sys c r)) (deferred (final (m ?s0)))"
    by (simp_all add: emits_def)
  show "list_all P (events (with_defers K m s)) \<and>
      (result (with_defers K m s) \<noteq> Gone \<and> result (with_defers K m s) \<noteq> OutOfFuel
         \<longrightarrow> list_all D (deferred (final (with_defers K m s))))"
    using m d run_defers_events [of P "deferred (final (m ?s0))" K]
    by (cases "result (m ?s0)")
      (simp_all add: with_defers_def events_on_exit final_on_exit result_on_exit
         run_defers_deferred)
qed

lemmas emits_intros =
  emits_ret emits_panic emits_emit emits_sys emits_syscall emits_setenv emits_defer_call
  emits_bnd emits_on_exit emits_if emits_case_option emits_case_sum emits_case_prod
  emits_with_defers

lemma only_calls_Sys [simp]: "only_calls F (Sys c r) = F c"
  by (simp add: only_calls_def)

lemma only_calls_other [simp]:
  "only_calls F (Println a)" "only_calls F (PrintRecovered p)" "only_calls F (LogPrint a)"
  "only_calls F (Printf x)"
  by (simp_all add: only_calls_def)

lemma emits_if_state:
  "emits P D m \<Longrightarrow> emits P D m' \<Longrightarrow> emits P D (\<lambda>s. (if b s then m else m') s)"
  by (simp add: emits_def)

lemma emits_weaken: "emits P D m \<Longrightarrow> (\<And>e. P e \<Longrightarrow> Q e) \<Longrightarrow> emits Q D m"
  by (auto simp: emits_def list_all_iff)

lemma pivot_mount_calls: "emits (only_calls (mount_call mp)) D (pivot_mount K mp root script)"
  unfolding pivot_mount_def
  by (rule emits_intros | simp)+

lemma makeRootDirs_calls: "emits (only_calls (populate_call mp)) D (makeRootDirs K mp)"
  unfolding makeRootDirs_def
  by (rule emits_for_range emits_intros | simp add: under_def skeleton_paths_def | force)+

lemma makeRootFiles_calls: "emits (only_calls (populate_call mp)) D (makeRootFiles K mp)"
  unfolding makeRootFiles_def makeRootFile_def
  by (rule emits_for_range emits_intros emits_if_state
      | simp add: under_def skeleton_paths_def | force)+

lemma makeRootLinks_calls: "emits (only_calls (populate_call mp)) D (makeRootLinks K mp)"
  unfolding makeRootLinks_def
  by (rule emits_for_range emits_intros | simp add: under_def skeleton_paths_def | force)+

lemma moveVirtualFileSystems_calls:
  "emits (only_calls (populate_call mp)) D (moveVirtualFileSystems K mp)"
  unfolding moveVirtualFileSystems_def
  by (rule emits_for_range emits_intros | simp add: under_def skeleton_paths_def | force)+

lemma pivot_populate_calls: "emits (only_calls (populate_call mp)) D (pivot_populate K mp)"
  unfolding pivot_populate_def
  by (rule emits_intros makeRootDirs_calls makeRootFiles_calls makeRootLinks_calls
      moveVirtualFileSystems_calls | simp)+

lemma cleanup_calls:
  "emits (only_calls cleanup_call) D (unlinkRootFiles K)"
  "emits (only_calls cleanup_call) D (rmdirRootDirs K)"
  unfolding unlinkRootFiles_def rmdirRootDirs_def
  by ((rule emits_for_range emits_intros | simp)+)

lemma emits_calls_weaken:
  "emits (only_calls F) D m \<Longrightarrow> (\<And>c. F c \<Longrightarrow> G c) \<Longrightarrow> emits (only_calls G) D m"
  by (rule emits_weaken, assumption) (auto simp: only_calls_def split: event.splits)

lemma makeTarget_calls:
  "emits (only_calls target_call) D (makeTargetDirs K)"
  "emits (only_calls target_call) D (makeTargetLinks K)"
  "emits (only_calls target_call) D (mountTargetVirtualFilesystems K)"
  unfolding makeTargetDirs_def makeTargetLinks_def mountTargetVirtualFilesystems_def
  by ((rule emits_for_range emits_intros | simp | force)+)

lemma emits_bnd_state:
  "(\<And>s0. emits P D (bnd (syscall K (c s0)) k)) \<Longrightarrow> emits P D (\<lambda>s. bnd (syscall K (c s)) k s)"
  by (simp add: emits_def)

lemma runSbinInit_calls: "emits (only_calls sbininit_call) D (runSbinInit K)"
  unfolding runSbinInit_def
  by (rule emits_intros emits_if_state emits_bnd_state | simp)+

lemma installer_calls: "emits (only_calls recovery_call) D (installer K params)"
  unfolding installer_def optional_request_def
  by (rule emits_intros | simp)+

lemma emergencyShell_calls: "emits (only_calls recovery_call) D (emergencyShell fuel K)"
proof (induction fuel)
  case 0
  show ?case by (simp add: emits_def)
next
  case (Suc n)
  show ?case
    unfolding emergencyShell.simps
    by (rule emits_intros Suc | simp)+
qed

lemma Main_recovery_calls: "emits (only_calls recovery_call) D (Main_recovery K gi r)"
  unfolding Main_recovery_def Let_def
  by (rule emits_intros emits_case_res installer_calls | simp)+

lemma Main_deferred_calls: "emits (only_calls recovery_call) D (Main_deferred fuel K gi r)"
  unfolding Main_deferred_def
  by (rule emits_intros emits_case_res Main_recovery_calls emergencyShell_calls | simp)+

lemma bnd_assoc: "bnd (bnd m k) h = bnd m (\<lambda>a. bnd (k a) h)"
  by (rule ext) (simp add: bnd_def split: prod.splits res.splits)

lemma bnd_ret: "bnd (ret a) k = k a"
  by (rule ext) (simp add: bnd_def ret_def split: prod.splits)

lemma bnd_ret_right: "bnd m ret = m"
  by (rule ext) (simp add: bnd_def ret_def split: prod.splits res.splits)

lemma bnd_panic: "bnd (panic p) k = panic p"
  by (rule ext) (simp add: bnd_def panic_def)

lemma bnd_case_option:
  "bnd (case x of None \<Rightarrow> m | Some e \<Rightarrow> f e) k = (case x of None \<Rightarrow> bnd m k | Some e \<Rightarrow> bnd (f e) k)"
  by (cases x) simp_all

lemma pivotRoot_split:
  "pivotRoot K mp root script =
     bnd (pivot_mount K mp root script) (\<lambda>_. bnd (pivot_populate K mp) (\<lambda>_. pivot_switch K mp))"
  unfolding pivotRoot_def pivot_mount_def pivot_populate_def pivot_switch_def
  by (simp add: bnd_assoc bnd_ret bnd_panic bnd_case_option
      cong: option.case_cong if_cong split del: if_split)

lemma emits_run: "emits P (\<lambda>_. True) m \<Longrightarrow> m s = (r, s', es) \<Longrightarrow> list_all P es"
  by (auto simp: emits_def list_all_iff dest!: spec [of _ s])

lemma bndE:
  assumes "bnd m k s = (r, s', es)"
  obtains (continue) a s1 es1 es2 where
      "m s = (Val a, s1, es1)" "k a s1 = (r, s', es2)" "es = es1 @ es2"
    | (panicked) p where "m s = (Panic p, s', es)" "r = Panic p"
    | (gone) "m s = (Gone, s', es)" "r = Gone"
    | (fuel) "m s = (OutOfFuel, s', es)" "r = OutOfFuel"
  using assms by (auto simp: bnd_def split: prod.splits res.splits)

lemma bnd_ValE:
  assumes "bnd m k s = (Val b, s', es)"
  obtains a s1 es1 es2 where
      "m s = (Val a, s1, es1)" "k a s1 = (Val b, s', es2)" "es = es1 @ es2"
  using assms by (auto simp: bnd_def split: prod.splits res.splits)

lemma syscallE:
  assumes "syscall K c s = (r, s', es)"
  obtains (returned) n e where "r = Val e" "es = [Sys c (Ret n e)]"
    | (thrown) p where "r = Panic p" "es = [Sys c (Throws p)]"
    | (noreturn) "r = Gone" "es = [Sys c NoRet]"
  using assms
  by (auto simp: syscall_def ret_def bnd_def sys_def split: prod.splits reply.splits res.splits)

lemma ret_eq: "(ret a s = (r, s', es)) = (r = Val a \<and> s' = s \<and> es = [])"
  by (auto simp: ret_def)

lemma panic_eq: "(panic p s = (r, s', es)) = (r = Panic p \<and> s' = s \<and> es = [])"
  by (auto simp: panic_def)

lemma bnd_peel:
  assumes "bnd m k s = (r, s', es)" and "Sys c rep \<in> set es"
    and "emits (only_calls F) (\<lambda>_. True) m" and "\<not> F c"
  obtains a s1 es1 es2 where "m s = (Val a, s1, es1)" "k a s1 = (r, s', es2)"
    "es = es1 @ es2" "Sys c rep \<in> set es2" "list_all (only_calls F) es1"
proof -
  have quiet: "list_all (only_calls F) (events (m s))"
    using assms(3) by (simp add: emits_def list_all_iff)
  then have notin: "Sys c rep \<notin> set (events (m s))"
    using assms(4) by (auto simp: list_all_iff)
  from assms(1) show thesis
  proof (cases rule: bndE)
    case (continue a s1 es1 es2)
    with notin quiet assms(2) that show ?thesis by auto
  qed (use notin assms(2) in auto)
qed

lemma pivot_switch_fail:
  assumes run: "pivot_switch K mp s = (r, s', es)"
    and mem: "Sys (Mount mp ''/'' [] MS_MOVE []) (Ret n (Some e)) \<in> set es"
  shows "r = Panic (Errorf ''mount %s /: %s'' [AStr mp, AErr e])
       \<and> (\<exists>pre. es = pre @ [Sys (Mount mp ''/'' [] MS_MOVE []) (Ret n (Some e))]
              \<and> list_all (only_calls cleanup_call) pre)"
proof -
  from run [unfolded pivot_switch_def] mem obtain s1 es1 es2 where
    1: "bnd (rmdirRootDirs K) (\<lambda>_. bnd (syscall K (Mount mp ''/'' [] MS_MOVE [])) (\<lambda>err.
          case err of Some e \<Rightarrow> panic (Errorf ''mount %s /: %s'' [AStr mp, AErr e])
          | None \<Rightarrow> bnd (syscall K (Chroot ''.'')) (\<lambda>err.
              case err of Some e \<Rightarrow> panic (Errorf ''chroot .:%s'' [AErr e])
              | None \<Rightarrow> ret ()))) s1 = (r, s', es2)"
      "es = es1 @ es2" "Sys (Mount mp ''/'' [] MS_MOVE []) (Ret n (Some e)) \<in> set es2"
      "list_all (only_calls cleanup_call) es1"
    by (rule bnd_peel [OF _ _ cleanup_calls(1)]) simp_all
  from 1(1,3) obtain s2 es3 es4 where
    2: "bnd (syscall K (Mount mp ''/'' [] MS_MOVE [])) (\<lambda>err.
          case err of Some e \<Rightarrow> panic (Errorf ''mount %s /: %s'' [AStr mp, AErr e])
          | None \<Rightarrow> bnd (syscall K (Chroot ''.'')) (\<lambda>err.
              case err of Some e \<Rightarrow> panic (Errorf ''chroot .:%s'' [AErr e])
              | None \<Rightarrow> ret ())) s2 = (r, s', es4)"
      "es2 = es3 @ es4" "Sys (Mount mp ''/'' [] MS_MOVE []) (Ret n (Some e)) \<in> set es4"
      "list_all (only_calls cleanup_call) es3"
    by (rule bnd_peel [OF _ _ cleanup_calls(2)]) simp_all
  from 2(1,3) have "r = Panic (Errorf ''mount %s /: %s'' [AStr mp, AErr e])
      \<and> es4 = [Sys (Mount mp ''/'' [] MS_MOVE []) (Ret n (Some e))]"
    by (auto simp: ret_eq panic_eq elim!: bndE syscallE split: option.splits)
  with 1 2 show ?thesis by simp
qed

lemma emergencyShell_no_value: "result (emergencyShell fuel K s) \<noteq> Val u"
proof (induction fuel arbitrary: s)
  case 0
  show ?case by simp
next
  case (Suc n)
  show ?case
    using Suc.IH
    by (simp add: result_bnd split: res.splits)
qed

lemma emergencyShell_unroll:
  assumes "always_returns K (GoesMain [''cli''])"
  shows "length (shell_replies fuel K (world s)) = fuel
           \<and> result (emergencyShell fuel K s) = OutOfFuel
           \<and> events (emergencyShell fuel K s)
               = concat (map shell_iteration (shell_replies fuel K (world s)))"
proof (induction fuel arbitrary: s)
  case 0
  show ?case by simp
next
  case (Suc n)
  from assms obtain m e where r: "fst (K (GoesMain [''cli'']) (world s)) = Ret m e"
    unfolding always_returns_def by blast
  obtain w' where k: "K (GoesMain [''cli'']) (world s) = (Ret m e, w')"
    using r by (cases "K (GoesMain [''cli'']) (world s)") simp
  let ?s2 = "s\<lparr>world := w'\<rparr>"
  have replies: "shell_replies (Suc n) K (world s) = (m, e) # shell_replies n K (world ?s2)"
    using k by simp
  have step: "result (emergencyShell (Suc n) K s) = result (emergencyShell n K ?s2)
      \<and> events (emergencyShell (Suc n) K s)
          = shell_iteration (m, e) @ events (emergencyShell n K ?s2)"
    using k
    by (simp add: bnd_def emit_def syscall_def sys_def ret_def shell_iteration_def
        split: option.splits prod.splits res.splits)
  show ?case
    using Suc.IH [of ?s2] step replies by simp
qed

lemma Main_body_split:
  "Main_body K goesRoot =
     bnd (syscall K Hook) (\<lambda>err.
     case err of
       Some e \<Rightarrow> panic (Errorf ''Error from board hook: '' [AErr e])
     | None \<Rightarrow> bnd (Main_pivot K goesRoot) (\<lambda>_. Main_finalize K))"
  by (simp only: Main_body_def Main_pivot_def Main_finalize_def Let_def)

lemma Main_finalize_calls: "emits (only_calls finalize_call) D (Main_finalize K)"
  unfolding Main_finalize_def
  by (rule emits_intros makeTarget_calls [THEN emits_calls_weaken]
        runSbinInit_calls [THEN emits_calls_weaken]
      | simp add: finalize_call_def)+

lemma pivot_switch_calls: "emits (only_calls switch_call) D (pivot_switch K mp)"
  unfolding pivot_switch_def
  by (rule emits_intros cleanup_calls [THEN emits_calls_weaken] | simp add: switch_call_def)+

lemma pivotRoot_calls: "emits (only_calls (pivot_call mp)) D (pivotRoot K mp root script)"
  unfolding pivotRoot_split
  by (rule emits_intros pivot_mount_calls [THEN emits_calls_weaken]
        pivot_populate_calls [THEN emits_calls_weaken]
        pivot_switch_calls [THEN emits_calls_weaken]
      | simp add: pivot_call_def)+

lemma Main_pivot_calls: "emits (only_calls (pivot_call ''/newroot'')) D (Main_pivot K gr)"
  unfolding Main_pivot_def Let_def
  by (rule emits_intros pivotRoot_calls)+

lemma on_exitE:
  assumes "on_exit m k s = (r, s', es)"
  obtains (stopped) "m s = (Gone, s', es)" "r = Gone"
    | (fuel) "m s = (OutOfFuel, s', es)" "r = OutOfFuel"
    | (returned) a sb eb ed where "m s = (Val a, sb, eb)" "k (Val a) sb = (r, s', ed)"
        "es = eb @ ed"
    | (panicked) p sb eb ed where "m s = (Panic p, sb, eb)" "k (Panic p) sb = (r, s', ed)"
        "es = eb @ ed"
  using assms by (auto simp: on_exit_def split: prod.splits res.splits)

lemma not_root [simp]: "(mp @ c # d # ds = [x]) = False"
  by (cases mp) simp_all

lemma under_not_root [simp]: "\<not> under mp ''/''"
  by (auto simp: under_def skeleton_paths_def root_dirs_def root_files_def root_links_def
      vfs_moves_def)

lemma quiet_call:
  "list_all (only_calls F) es \<Longrightarrow> Sys c rep \<in> set es \<Longrightarrow> F c"
  by (auto simp: list_all_iff)

lemma pivotRoot_fail:
  assumes run: "pivotRoot K mp root script s = (r, s', es)"
    and mem: "Sys (Mount mp ''/'' [] MS_MOVE []) (Ret n (Some e)) \<in> set es"
  shows "r = Panic (Errorf ''mount %s /: %s'' [AStr mp, AErr e])
       \<and> (\<exists>pre. es = pre @ [Sys (Mount mp ''/'' [] MS_MOVE []) (Ret n (Some e))]
              \<and> list_all (only_calls (before_moveroot mp)) pre)"
proof -
  from run [unfolded pivotRoot_split] mem obtain a1 s1 es1 es2 where
    1: "bnd (pivot_populate K mp) (\<lambda>_. pivot_switch K mp) s1 = (r, s', es2)"
      "es = es1 @ es2" "Sys (Mount mp ''/'' [] MS_MOVE []) (Ret n (Some e)) \<in> set es2"
      "list_all (only_calls (mount_call mp)) es1"
    by (rule bnd_peel [OF _ _ pivot_mount_calls]) simp_all
  from 1(1,3) obtain a2 s2 es3 es4 where
    2: "pivot_switch K mp s2 = (r, s', es4)"
      "es2 = es3 @ es4" "Sys (Mount mp ''/'' [] MS_MOVE []) (Ret n (Some e)) \<in> set es4"
      "list_all (only_calls (populate_call mp)) es3"
    by (rule bnd_peel [OF _ _ pivot_populate_calls]) simp_all
  from pivot_switch_fail [OF 2(1,3)] obtain pre where
    3: "r = Panic (Errorf ''mount %s /: %s'' [AStr mp, AErr e])"
      "es4 = pre @ [Sys (Mount mp ''/'' [] MS_MOVE []) (Ret n (Some e))]"
      "list_all (only_calls cleanup_call) pre"
    by blast
  have "list_all (only_calls (before_moveroot mp)) (es1 @ es3 @ pre)"
    using 1(4) 2(4) 3(3)
    by (auto simp: list_all_iff before_moveroot_def only_calls_def split: event.splits)
  moreover have "es = (es1 @ es3 @ pre) @ [Sys (Mount mp ''/'' [] MS_MOVE []) (Ret n (Some e))]"
    using 1(2) 2(2) 3(2) by simp
  ultimately show ?thesis using 3(1) by blast
qed

lemma Main_pivot_fail:
  assumes run: "Main_pivot K gr s = (r, s', es)"
    and mem: "Sys (Mount ''/newroot'' ''/'' [] MS_MOVE []) (Ret n (Some e)) \<in> set es"
  shows "r = Panic (Errorf ''mount %s /: %s'' [AStr ''/newroot'', AErr e])
       \<and> (\<exists>pre. es = pre @ [Sys (Mount ''/newroot'' ''/'' [] MS_MOVE []) (Ret n (Some e))]
              \<and> list_all (only_calls (before_moveroot ''/newroot'')) pre)"
  using assms pivotRoot_fail [of K "''/newroot''" _ _ s r s' es n e]
  by (auto simp: Main_pivot_def Let_def ret_eq split: if_splits)

lemma Main_body_fail:
  assumes run: "Main_body K gr s = (r, s', es)"
    and mem: "Sys (Mount ''/newroot'' ''/'' [] MS_MOVE []) (Ret n (Some e)) \<in> set es"
  shows "r = Panic (Errorf ''mount %s /: %s'' [AStr ''/newroot'', AErr e])
       \<and> (\<exists>pre. es = pre @ [Sys (Mount ''/newroot'' ''/'' [] MS_MOVE []) (Ret n (Some e))]
              \<and> list_all (only_calls (before_moveroot ''/newroot'')) pre)"
proof -
  let ?e = "Sys (Mount ''/newroot'' ''/'' [] MS_MOVE []) (Ret n (Some e))"
  have hook: "emits (only_calls (\<lambda>c. c = Hook)) (\<lambda>_. True) (syscall K Hook)"
    by (rule emits_syscall) simp
  from run [unfolded Main_body_split] mem obtain a s1 es1 es2 where
    1: "(case a of Some e \<Rightarrow> panic (Errorf ''Error from board hook: '' [AErr e])
         | None \<Rightarrow> bnd (Main_pivot K gr) (\<lambda>_. Main_finalize K)) s1 = (r, s', es2)"
      "es = es1 @ es2" "?e \<in> set es2" "list_all (only_calls (\<lambda>c. c = Hook)) es1"
    by (rule bnd_peel [OF _ _ hook]) simp_all
  from 1(1,3) have 2: "bnd (Main_pivot K gr) (\<lambda>_. Main_finalize K) s1 = (r, s', es2)"
    by (cases a) (simp_all add: panic_eq)
  have fin: "\<And>sx rx sx' ex. Main_finalize K sx = (rx, sx', ex) \<Longrightarrow> ?e \<notin> set ex"
    by (drule Main_finalize_calls [THEN emits_run])
      (auto dest!: quiet_call simp: finalize_call_def)
  from 2 have "r = Panic (Errorf ''mount %s /: %s'' [AStr ''/newroot'', AErr e])
       \<and> (\<exists>pre. es2 = pre @ [?e] \<and> list_all (only_calls (before_moveroot ''/newroot'')) pre)"
  proof (cases rule: bndE)
    case (continue a s2 es3 es4)
    with 1(3) fin [OF continue(2)] have "?e \<in> set es3" by auto
    from Main_pivot_fail [OF continue(1) this] show ?thesis by simp
  next
    case (panicked p)
    from Main_pivot_fail [OF panicked(1) 1(3)] panicked(2) show ?thesis by simp
  next
    case gone
    from Main_pivot_fail [OF gone(1) 1(3)] show ?thesis by simp
  next
    case fuel
    from Main_pivot_fail [OF fuel(1) 1(3)] show ?thesis by simp
  qed
  then obtain pre where
    3: "r = Panic (Errorf ''mount %s /: %s'' [AStr ''/newroot'', AErr e])"
      "es2 = pre @ [?e]" "list_all (only_calls (before_moveroot ''/newroot'')) pre"
    by blast
  have "list_all (only_calls (before_moveroot ''/newroot'')) (es1 @ pre)"
    using 1(4) 3(3)
    by (auto simp: list_all_iff before_moveroot_def only_calls_def split: event.splits)
  moreover have "es = (es1 @ pre) @ [?e]" using 1(2) 3(2) by simp
  ultimately show ?thesis using 3(1) by blast
qed

lemma Main_deferred_Panic:
  "\<exists>rest. events (Main_deferred fuel K gi (Panic p) s) = PrintRecovered p # rest"
  by (simp add: Main_deferred_def Main_recovery_def events_on_exit events_bnd emit_def)

lemma Main_fail:
  assumes mem: "Sys (Mount ''/newroot'' ''/'' [] MS_MOVE []) (Ret n (Some e))
      \<in> set (events (Main fuel K s))"
  shows "\<exists>pre post. events (Main fuel K s) =
        pre @ Sys (Mount ''/newroot'' ''/'' [] MS_MOVE []) (Ret n (Some e))
            # PrintRecovered (Errorf ''mount %s /: %s'' [AStr ''/newroot'', AErr e]) # post
      \<and> list_all (only_calls (before_moveroot ''/newroot'')) pre
      \<and> list_all (only_calls recovery_call) post"
proof -
  let ?e = "Sys (Mount ''/newroot'' ''/'' [] MS_MOVE []) (Ret n (Some e))"
  let ?p = "Errorf ''mount %s /: %s'' [AStr ''/newroot'', AErr e]"
  let ?gr = "SplitList (getenv s ''goesroot'')"
  let ?gi = "getenv s ''goesinstaller''"
  obtain r s' es where run: "Main fuel K s = (r, s', es)" by (cases "Main fuel K s")
  with mem have mem': "?e \<in> set es" by simp
  have dfr: "\<And>rb sb rd sd ed. Main_deferred fuel K ?gi rb sb = (rd, sd, ed)
      \<Longrightarrow> list_all (only_calls recovery_call) ed"
    by (rule Main_deferred_calls [THEN emits_run])
  from run have "on_exit (Main_body K ?gr) (Main_deferred fuel K ?gi) s = (r, s', es)"
    by (simp add: Main_def Let_def)
  then have "\<exists>pre post. es = pre @ ?e # PrintRecovered ?p # post
      \<and> list_all (only_calls (before_moveroot ''/newroot'')) pre
      \<and> list_all (only_calls recovery_call) post"
  proof (cases rule: on_exitE)
    case stopped
    from Main_body_fail [OF stopped(1) mem'] show ?thesis by simp
  next
    case fuel
    from Main_body_fail [OF fuel(1) mem'] show ?thesis by simp
  next
    case (returned a sb eb ed)
    from dfr [OF returned(2)] have "?e \<notin> set ed" by (auto dest: quiet_call)
    with mem' returned(3) have "?e \<in> set eb" by simp
    from Main_body_fail [OF returned(1) this] show ?thesis by simp
  next
    case (panicked p sb eb ed)
    from dfr [OF panicked(2)] have quiet: "list_all (only_calls recovery_call) ed" .
    then have "?e \<notin> set ed" by (auto dest: quiet_call)
    with mem' panicked(3) have "?e \<in> set eb" by simp
    from Main_body_fail [OF panicked(1) this] obtain pre where
      b: "p = ?p" "eb = pre @ [?e]" "list_all (only_calls (before_moveroot ''/newroot'')) pre"
      by blast
    from Main_deferred_Panic [of fuel K ?gi p sb] panicked(2) obtain rest where
      d: "ed = PrintRecovered p # rest" by auto
    from quiet d have "list_all (only_calls recovery_call) rest" by simp
    with b d panicked(3) show ?thesis
      by (intro exI [of _ pre] exI [of _ rest]) simp
  qed
  with run show ?thesis by simp
qed

lemmas skeleton_tables = under_def skeleton_paths_def root_dirs_def root_files_def
  root_links_def vfs_moves_def

lemma before_not_finalize: "before_moveroot ''/newroot'' c \<Longrightarrow> \<not> finalize_call c"
  by (cases c) (auto simp: before_moveroot_def finalize_call_def skeleton_tables sbininit_def)

lemma recovery_not_finalize: "recovery_call c \<Longrightarrow> \<not> finalize_call c"
  by (cases c) (auto simp: finalize_call_def kexec_args_def)

lemmas run_defs = bnd_def on_exit_def syscall_def sys_def ret_def panic_def emit_def
  defer_call_def with_defers_def setenv_def getenv_def isNotExist_def Let_def
  Main_def Main_body_def Main_deferred_def Main_recovery_def SplitList_def pivotRoot_def
  makeRootDirs_def makeRootFiles_def makeRootFile_def makeRootLinks_def
  moveVirtualFileSystems_def unlinkRootFiles_def rmdirRootDirs_def root_dirs_def root_files_def
  root_links_def vfs_moves_def makeTargetDirs_def makeTargetLinks_def
  mountTargetVirtualFilesystems_def runSbinInit_def installer_def optional_request_def

lemma busy_run:
  "events (Main 1 busy_kernel proc_root) =
    [Sys Hook (Ret 0 None), Sys (Stat ''/newroot'') (Ret 0 None),
     Sys (GoesMain [''mount'', ''/dev/sda1'', ''/newroot'']) (Ret 0 None),
     Sys (GoesMain [''source'', ''/etc/boot.conf'']) (Ret 0 None),
     Sys (Stat ''/newroot/bin'') (Ret 0 None),
     Sys (Stat ''/newroot/sbin'') (Ret 0 None),
     Sys (Stat ''/newroot/usr'') (Ret 0 None),
     Sys (Stat ''/newroot/usr/bin'') (Ret 0 None),
     Sys (Stat ''/newroot/usr/bin/goes'') (Ret 0 None),
     Sys (Stat ''/newroot/usr/bin/gdbserver'') (Ret 0 None),
     Sys (Stat ''/newroot/sbin/init'') (Ret 0 None),
     Sys (Stat ''/newroot/run'') (Ret 0 None),
     Sys (Mount ''/run'' ''/newroot/run'' [] MS_MOVE []) (Ret 0 None),
     Sys (Stat ''/newroot/sysfs'') (Ret 0 None),
     Sys (Mount ''/sys'' ''/newroot/sysfs'' [] MS_MOVE []) (Ret 0 None),
     Sys (Stat ''/newroot/proc'') (Ret 0 None),
     Sys (Mount ''/proc'' ''/newroot/proc'' [] MS_MOVE []) (Ret 0 None),
     Sys (Stat ''/newroot/dev'') (Ret 0 None),
     Sys (Mount ''/dev'' ''/newroot/dev'' [] MS_MOVE []) (Ret 0 None),
     Sys (Chdir ''/newroot'') (Ret 0 None),
     Sys (Unlink ''/usr/bin/gdbserver'') (Ret 0 None),
     Sys (Unlink ''/init'') (Ret 0 None),
     Sys (Unlink ''/bin/goes'') (Ret 0 None),
     Sys (Rmdir ''/run'') (Ret 0 None), Sys (Rmdir ''/sys'') (Ret 0 None),
     Sys (Rmdir ''/proc'') (Ret 0 None), Sys (Rmdir ''/dev'') (Ret 0 None),
     Sys (Rmdir ''/usr/bin'') (Ret 0 None), Sys (Rmdir ''/usr'') (Ret 0 None),
     Sys (Rmdir ''/bin'') (Ret 0 None),
     Sys (Mount ''/newroot'' ''/'' [] MS_MOVE []) (Ret 0 (Some (OtherErr ''EBUSY''))),
     PrintRecovered (Errorf ''mount %s /: %s'' [AStr ''/newroot'', AErr (OtherErr ''EBUSY'')]),
     Println [AStr banner],
     Sys (GoesMain [''cli'']) (Ret 0 None)]"
  by (simp add: run_defs busy_kernel_def proc_root_def proc0_def)

lemma syscall_ValE:
  assumes "syscall K c s = (Val e, s', es)"
  obtains n where "fst (K c (world s)) = Ret n e" "s' = s\<lparr>world := snd (K c (world s))\<rparr>"
    "es = [Sys c (Ret n e)]"
  using assms
  by (auto simp: syscall_def ret_def bnd_def sys_def split: prod.splits reply.splits res.splits)

lemma pivot_populate_Val:
  assumes "pivot_populate K mp s = (Val u, s', es)"
  shows "\<exists>s1 s2 s3 s4 es1 es2 es3 es4 n.
      makeRootDirs K mp s = (Val (), s1, es1)
    \<and> makeRootFiles K mp s1 = (Val (), s2, es2)
    \<and> makeRootLinks K mp s2 = (Val (), s3, es3)
    \<and> moveVirtualFileSystems K mp s3 = (Val (), s4, es4)
    \<and> fst (K (Chdir mp) (world s4)) = Ret n None
    \<and> es = es1 @ es2 @ es3 @ es4 @ [Sys (Chdir mp) (Ret n None)]"
  using assms unfolding pivot_populate_def
  by (elim bnd_ValE syscall_ValE) (auto simp: ret_eq panic_eq split: option.splits)

lemma not_cleanup_quiet:
  "list_all (only_calls F) es \<Longrightarrow> (\<And>c. F c \<Longrightarrow> \<not> cleanup_call c)
     \<Longrightarrow> \<forall>e\<in>set es. \<not> is_cleanup e"
  by (auto simp: list_all_iff only_calls_def elim!: is_cleanup.elims split: event.splits)

lemma mount_not_cleanup: "mount_call mp c \<Longrightarrow> \<not> cleanup_call c"
  by (cases c) simp_all

lemma populate_not_cleanup: "populate_call mp c \<Longrightarrow> \<not> cleanup_call c"
  by (cases c) simp_all

lemma pivotRoot_cleanup:
  assumes run: "pivotRoot K mp root script s = (r, s', es)"
    and mem: "e \<in> set es" and cl: "is_cleanup e"
  shows "\<exists>s0 s1 s2 s3 s4 pre es1 es2 es3 es4 n post.
      pivot_mount K mp root script s = (Val (), s0, pre)
    \<and> makeRootDirs K mp s0 = (Val (), s1, es1)
    \<and> makeRootFiles K mp s1 = (Val (), s2, es2)
    \<and> makeRootLinks K mp s2 = (Val (), s3, es3)
    \<and> moveVirtualFileSystems K mp s3 = (Val (), s4, es4)
    \<and> fst (K (Chdir mp) (world s4)) = Ret n None
    \<and> es = pre @ es1 @ es2 @ es3 @ es4 @ Sys (Chdir mp) (Ret n None) # post
    \<and> e \<in> set post
    \<and> (\<forall>e'\<in>set (pre @ es1 @ es2 @ es3 @ es4). \<not> is_cleanup e')"
proof -
  from cl obtain c rep where e: "e = Sys c rep" "cleanup_call c"
    by (cases e) simp_all
  from run [unfolded pivotRoot_split] mem e obtain a1 s0 pre es' where
    1: "pivot_mount K mp root script s = (Val a1, s0, pre)"
      "bnd (pivot_populate K mp) (\<lambda>_. pivot_switch K mp) s0 = (r, s', es')"
      "es = pre @ es'" "Sys c rep \<in> set es'" "list_all (only_calls (mount_call mp)) pre"
    by (auto elim!: bnd_peel [OF _ _ pivot_mount_calls] dest: mount_not_cleanup)
  from 1(2,4) e(2) obtain a2 s5 pop post where
    2: "pivot_populate K mp s0 = (Val a2, s5, pop)" "pivot_switch K mp s5 = (r, s', post)"
      "es' = pop @ post" "Sys c rep \<in> set post" "list_all (only_calls (populate_call mp)) pop"
    by (auto elim!: bnd_peel [OF _ _ pivot_populate_calls] dest: populate_not_cleanup)
  from pivot_populate_Val [OF 2(1)] obtain s1 s2 s3 s4 es1 es2 es3 es4 n where
    3: "makeRootDirs K mp s0 = (Val (), s1, es1)"
      "makeRootFiles K mp s1 = (Val (), s2, es2)"
      "makeRootLinks K mp s2 = (Val (), s3, es3)"
      "moveVirtualFileSystems K mp s3 = (Val (), s4, es4)"
      "fst (K (Chdir mp) (world s4)) = Ret n None"
      "pop = es1 @ es2 @ es3 @ es4 @ [Sys (Chdir mp) (Ret n None)]"
    by blast
  have q1: "\<forall>e'\<in>set pre. \<not> is_cleanup e'"
    using 1(5) by (rule not_cleanup_quiet) (rule mount_not_cleanup)
  have q2: "\<forall>e'\<in>set pop. \<not> is_cleanup e'"
    using 2(5) by (rule not_cleanup_quiet) (rule populate_not_cleanup)
  have "es = pre @ es1 @ es2 @ es3 @ es4 @ Sys (Chdir mp) (Ret n None) # post"
    using 1(3) 2(3) 3(6) by simp
  moreover have "\<forall>e'\<in>set (pre @ es1 @ es2 @ es3 @ es4). \<not> is_cleanup e'"
    using q1 q2 3(6) by auto
  moreover have "pivot_mount K mp root script s = (Val (), s0, pre)" using 1(1) by simp
  ultimately show ?thesis using 3(1-5) 2(4) e(1) by blast
qed

lemma for_range_Val:
  "for_range xs f s = (Val u, s', es) \<Longrightarrow> x \<in> set xs
     \<Longrightarrow> \<exists>sx sx' ex. f x sx = (Val (), sx', ex) \<and> set ex \<subseteq> set es"
proof (induction xs arbitrary: s es)
  case Nil
  then show ?case by simp
next
  case (Cons y ys)
  from Cons.prems(1) obtain a s1 es1 es2 where
    step: "f y s = (Val a, s1, es1)" "for_range ys f s1 = (Val u, s', es2)" "es = es1 @ es2"
    by (auto elim: bnd_ValE)
  show ?case
  proof (cases "x = y")
    case True
    with step show ?thesis by auto
  next
    case False
    with Cons.prems(2) have "x \<in> set ys" by simp
    from Cons.IH [OF step(2) this] step(3) show ?thesis by auto
  qed
qed

lemma moveVirtualFileSystems_Val:
  assumes "moveVirtualFileSystems K mp s = (Val u, s', es)" and "mv \<in> set vfs_moves"
  shows "\<exists>k. Sys (Mount (fst mv) (mp @ fst (snd mv)) [] MS_MOVE []) (Ret k None) \<in> set es"
proof -
  from for_range_Val [OF assms(1) [unfolded moveVirtualFileSystems_def] assms(2)]
  show ?thesis
    by (cases mv) (fastforce simp: ret_eq panic_eq elim!: bnd_ValE syscall_ValE
        split: option.splits if_splits)
qed

lemma makeRootDirs_Val:
  assumes "makeRootDirs K mp s = (Val u, s', es)" and "d \<in> set root_dirs"
  shows "(\<exists>k r. Sys (Stat (mp @ fst d)) (Ret k r) \<in> set es \<and> \<not> isNotExist r)
       \<or> (\<exists>k. Sys (Mkdir (mp @ fst d) (snd d)) (Ret k None) \<in> set es)"
proof -
  from for_range_Val [OF assms(1) [unfolded makeRootDirs_def] assms(2)]
  show ?thesis
    by (cases d) (fastforce simp: ret_eq panic_eq elim!: bnd_ValE syscall_ValE
        split: option.splits if_splits)
qed

lemma makeRootLinks_Val:
  assumes "makeRootLinks K mp s = (Val u, s', es)" and "l \<in> set root_links"
  shows "(\<exists>k r. Sys (Stat (mp @ snd l)) (Ret k r) \<in> set es \<and> \<not> isNotExist r)
       \<or> (\<exists>k. Sys (Symlink (fst l) (mp @ snd l)) (Ret k None) \<in> set es)"
proof -
  from for_range_Val [OF assms(1) [unfolded makeRootLinks_def] assms(2)]
  show ?thesis
    by (cases l) (fastforce simp: ret_eq panic_eq elim!: bnd_ValE syscall_ValE
        split: option.splits if_splits)
qed

lemma on_exit_ValE:
  assumes "on_exit m k s = (Val b, s', es)"
  obtains rb sb eb ed where "m s = (rb, sb, eb)" "k rb sb = (Val b, s', ed)" "es = eb @ ed"
  using assms by (auto simp: on_exit_def split: prod.splits res.splits)

lemma run_defers_Val: "run_defers K cs r s = (Val b, s', es) \<Longrightarrow> r = Val b"
proof (induction cs arbitrary: r s es)
  case Nil
  then show ?case by simp
next
  case (Cons c cs)
  from Cons.prems obtain rb :: "(nat \<times> goerr option) res" and sb ed where
    "run_defers K cs (case rb of Panic p \<Rightarrow> Panic p | _ \<Rightarrow> r) sb = (Val b, s', ed)"
    by (auto elim: on_exit_ValE)
  from Cons.IH [OF this] show ?case by (cases rb) simp_all
qed

lemma makeRootFiles_Val:
  assumes "makeRootFiles K mp s = (Val u, s', es)" and "f \<in> set root_files"
  shows "(\<exists>k r. Sys (Stat (mp @ snd f)) (Ret k r) \<in> set es \<and> \<not> isNotExist r)
       \<or> (\<exists>k. Sys (Copy (mp @ snd f) (fst f)) (Ret k None) \<in> set es)"
proof -
  from assms(1) obtain rb sb eb ed where
    w: "for_range root_files (makeRootFile K mp) (s\<lparr>deferred := []\<rparr>) = (rb, sb, eb)"
      "run_defers K (deferred sb) rb (sb\<lparr>deferred := deferred s\<rparr>) = (Val u, s', ed)"
      "es = eb @ ed"
    by (auto simp: makeRootFiles_def with_defers_def elim: on_exit_ValE)
  from run_defers_Val [OF w(2)] have "rb = Val u" .
  from for_range_Val [OF w(1) [unfolded this] assms(2)] w(3)
  show ?thesis
    by (cases f) (fastforce simp: makeRootFile_def ret_eq panic_eq defer_call_def
        elim!: bnd_ValE syscall_ValE split: option.splits if_splits)
qed

lemma fresh_run:
  "events (pivotRoot fresh_kernel ''/newroot'' ''/dev/sda1'' ''/etc/boot.conf'' proc0)
     = fresh_pivot_events"
  by (simp add: run_defs fresh_kernel_def proc0_def fresh_pivot_events_def)

lemma runSbinInit_stat_absent:
  assumes run: "runSbinInit K s = (r, s', es)"
    and mem: "Sys (Stat sbininit) (Ret n (Some ENOENT)) \<in> set es"
  shows "r = Val () \<and> (\<exists>pre. es = pre @ [Sys (Stat sbininit) (Ret n (Some ENOENT))]
      \<and> list_all (only_calls (\<lambda>c. c = Chdir ''/root'')) pre)"
  using assms unfolding runSbinInit_def
  by (auto simp: setenv_def ret_eq panic_eq sbininit_def isNotExist_def
      elim!: bndE syscallE split: if_splits option.splits)

lemma runSbinInit_exec_fails:
  assumes run: "runSbinInit K s = (r, s', es)"
    and mem: "Sys (Exec p a env) (Ret m (Some e)) \<in> set es"
  shows "r = Panic (Errorf ''exec %s: %s'' [AStr sbininit, AErr e])
     \<and> p = sbininit
     \<and> (\<exists>pre. es = pre @ [Sys (Exec p a env) (Ret m (Some e))]
          \<and> list_all (only_calls (\<lambda>c. c = Chdir ''/root'' \<or> c = Stat sbininit)) pre)"
  using assms unfolding runSbinInit_def
  by (auto simp: setenv_def ret_eq panic_eq sbininit_def isNotExist_def
      elim!: bndE syscallE split: if_splits option.splits)

lemma Main_events:
  "\<exists>ed. events (Main fuel K s)
          = events (Main_body K (SplitList (getenv s ''goesroot'')) s) @ ed
      \<and> list_all (only_calls recovery_call) ed
      \<and> (\<forall>p. result (Main_body K (SplitList (getenv s ''goesroot'')) s) = Panic p
            \<longrightarrow> (\<exists>rest. ed = PrintRecovered p # rest))"
proof -
  let ?body = "Main_body K (SplitList (getenv s ''goesroot'')) s"
  let ?gi = "getenv s ''goesinstaller''"
  have ev: "events (Main fuel K s) = events ?body @
      (case result ?body of Gone \<Rightarrow> [] | OutOfFuel \<Rightarrow> []
       | r \<Rightarrow> events (Main_deferred fuel K ?gi r (final ?body)))"
    by (simp add: Main_def Let_def events_on_exit)
  have q: "\<And>r. list_all (only_calls recovery_call) (events (Main_deferred fuel K ?gi r (final ?body)))"
    using Main_deferred_calls [of "\<lambda>_. True" fuel K ?gi]
    by (simp add: emits_def list_all_iff)
  show ?thesis
  proof (cases "result ?body")
    case (Val a)
    with ev q [of "Val a"] show ?thesis by simp
  next
    case (Panic p)
    with ev q [of "Panic p"] Main_deferred_Panic [of fuel K ?gi p "final ?body"]
    show ?thesis by auto
  next
    case Gone
    with ev show ?thesis by simp
  next
    case OutOfFuel
    with ev show ?thesis by simp
  qed
qed

lemma sbininit_not_before: "sbininit_call c \<Longrightarrow> \<not> before_finalize c"
  by (cases c)
    (auto simp: before_finalize_def pivot_call_def switch_call_def skeleton_tables sbininit_def)

lemma start_not_before: "\<not> before_finalize (GoesMain [''start''])"
  by (simp add: before_finalize_def pivot_call_def switch_call_def)

lemma Main_body_final:
  assumes run: "Main_body K gr s = (r, s', es)"
    and mem: "Sys c rep \<in> set es" and c: "sbininit_call c"
  shows "\<exists>s4 pre es4.
      bnd (runSbinInit K) (\<lambda>_. syscall K (GoesMain [''start''])) s4 = (r, s', es4)
    \<and> es = pre @ es4 \<and> Sys c rep \<in> set es4 \<and> list_all (only_calls before_finalize) pre"
proof -
  note nb = sbininit_not_before [OF c]
  have hook: "emits (only_calls (\<lambda>c. c = Hook)) (\<lambda>_. True) (syscall K Hook)"
    by (rule emits_syscall) simp
  from run [unfolded Main_body_split] mem nb obtain a s1 es1 es2 where
    1: "(case a of Some e \<Rightarrow> panic (Errorf ''Error from board hook: '' [AErr e])
         | None \<Rightarrow> bnd (Main_pivot K gr) (\<lambda>_. Main_finalize K)) s1 = (r, s', es2)"
      "es = es1 @ es2" "Sys c rep \<in> set es2" "list_all (only_calls (\<lambda>c. c = Hook)) es1"
    by (auto elim!: bnd_peel [OF _ _ hook] simp: before_finalize_def)
  from 1(1,3) have "bnd (Main_pivot K gr) (\<lambda>_. Main_finalize K) s1 = (r, s', es2)"
    by (cases a) (simp_all add: panic_eq)
  with 1(3) nb obtain a2 s2 es3 es4 where
    2: "Main_finalize K s2 = (r, s', es4)" "es2 = es3 @ es4" "Sys c rep \<in> set es4"
      "list_all (only_calls (pivot_call ''/newroot'')) es3"
    by (auto elim!: bnd_peel [OF _ _ Main_pivot_calls] simp: before_finalize_def)
  from 2(1,3) nb obtain a3 s3 es5 es6 where
    3: "bnd (makeTargetLinks K) (\<lambda>_. bnd (mountTargetVirtualFilesystems K) (\<lambda>_.
          bnd (runSbinInit K) (\<lambda>_. syscall K (GoesMain [''start''])))) s3 = (r, s', es6)"
      "es4 = es5 @ es6" "Sys c rep \<in> set es6" "list_all (only_calls target_call) es5"
    unfolding Main_finalize_def
    by (auto elim!: bnd_peel [OF _ _ makeTarget_calls(1)] simp: before_finalize_def)
  from 3(1,3) nb obtain a4 s4 es7 es8 where
    4: "bnd (mountTargetVirtualFilesystems K) (\<lambda>_.
          bnd (runSbinInit K) (\<lambda>_. syscall K (GoesMain [''start'']))) s4 = (r, s', es8)"
      "es6 = es7 @ es8" "Sys c rep \<in> set es8" "list_all (only_calls target_call) es7"
    by (auto elim!: bnd_peel [OF _ _ makeTarget_calls(2)] simp: before_finalize_def)
  from 4(1,3) nb obtain a5 s5 es9 es10 where
    5: "bnd (runSbinInit K) (\<lambda>_. syscall K (GoesMain [''start''])) s5 = (r, s', es10)"
      "es8 = es9 @ es10" "Sys c rep \<in> set es10" "list_all (only_calls target_call) es9"
    by (auto elim!: bnd_peel [OF _ _ makeTarget_calls(3)] simp: before_finalize_def)
  have "list_all (only_calls before_finalize) (es1 @ es3 @ es5 @ es7 @ es9)"
    using 1(4) 2(4) 3(4) 4(4) 5(4)
    by (auto simp: list_all_iff before_finalize_def only_calls_def split: event.splits)
  moreover have "es = (es1 @ es3 @ es5 @ es7 @ es9) @ es10"
    using 1(2) 2(2) 3(2) 4(2) 5(2) by simp
  ultimately show ?thesis using 5(1,3) by blast
qed

lemma Main_body_absent:
  assumes run: "Main_body K gr s = (r, s', es)"
    and mem: "Sys (Stat sbininit) (Ret n (Some ENOENT)) \<in> set es"
  shows "\<exists>pre rep. es = pre @ [Sys (Stat sbininit) (Ret n (Some ENOENT)),
                              Sys (GoesMain [''start'']) rep]
      \<and> list_all (only_calls before_exec) pre"
proof -
  let ?e = "Sys (Stat sbininit) (Ret n (Some ENOENT))"
  from Main_body_final [OF run mem] obtain s4 pre es4 where
    1: "bnd (runSbinInit K) (\<lambda>_. syscall K (GoesMain [''start''])) s4 = (r, s', es4)"
      "es = pre @ es4" "?e \<in> set es4" "list_all (only_calls before_finalize) pre"
    by auto
  from 1(1) have "\<exists>p5 rep. es4 = p5 @ [?e, Sys (GoesMain [''start'']) rep]
      \<and> list_all (only_calls (\<lambda>c. c = Chdir ''/root'')) p5"
  proof (cases rule: bndE)
    case (continue a s5 e5 e6)
    from continue(2) obtain rep where e6: "e6 = [Sys (GoesMain [''start'']) rep]"
      by (auto elim: syscallE)
    with 1(3) continue(3) have "?e \<in> set e5" by simp
    from runSbinInit_stat_absent [OF continue(1) this] e6 continue(3)
    show ?thesis by auto
  next
    case (panicked p)
    from runSbinInit_stat_absent [OF panicked(1) 1(3)] show ?thesis by simp
  next
    case gone
    from runSbinInit_stat_absent [OF gone(1) 1(3)] show ?thesis by simp
  next
    case fuel
    from runSbinInit_stat_absent [OF fuel(1) 1(3)] show ?thesis by simp
  qed
  then obtain p5 rep where
    2: "es4 = p5 @ [?e, Sys (GoesMain [''start'']) rep]"
      "list_all (only_calls (\<lambda>c. c = Chdir ''/root'')) p5"
    by blast
  have "list_all (only_calls before_exec) (pre @ p5)"
    using 1(4) 2(2)
    by (auto simp: list_all_iff before_exec_def only_calls_def split: event.splits)
  moreover have "es = (pre @ p5) @ [?e, Sys (GoesMain [''start'']) rep]"
    using 1(2) 2(1) by simp
  ultimately show ?thesis by blast
qed

lemma Main_body_exec:
  assumes run: "Main_body K gr s = (r, s', es)"
    and mem: "Sys (Exec sbininit a env) (Ret m (Some e)) \<in> set es"
  shows "r = Panic (Errorf ''exec %s: %s'' [AStr sbininit, AErr e])
      \<and> (\<exists>pre. es = pre @ [Sys (Exec sbininit a env) (Ret m (Some e))]
           \<and> list_all (only_calls before_exec) pre)"
proof -
  let ?e = "Sys (Exec sbininit a env) (Ret m (Some e))"
  from Main_body_final [OF run mem] obtain s4 pre es4 where
    1: "bnd (runSbinInit K) (\<lambda>_. syscall K (GoesMain [''start''])) s4 = (r, s', es4)"
      "es = pre @ es4" "?e \<in> set es4" "list_all (only_calls before_finalize) pre"
    by auto
  from 1(1) have "r = Panic (Errorf ''exec %s: %s'' [AStr sbininit, AErr e])
      \<and> (\<exists>p5. es4 = p5 @ [?e]
           \<and> list_all (only_calls (\<lambda>c. c = Chdir ''/root'' \<or> c = Stat sbininit)) p5)"
  proof (cases rule: bndE)
    case (continue a s5 e5 e6)
    from continue(2) obtain rep where e6: "e6 = [Sys (GoesMain [''start'']) rep]"
      by (auto elim: syscallE)
    with 1(3) continue(3) have "?e \<in> set e5" by simp
    from runSbinInit_exec_fails [OF continue(1) this] show ?thesis by simp
  next
    case (panicked p)
    from runSbinInit_exec_fails [OF panicked(1) 1(3)] panicked(2) show ?thesis by simp
  next
    case gone
    from runSbinInit_exec_fails [OF gone(1) 1(3)] show ?thesis by simp
  next
    case fuel
    from runSbinInit_exec_fails [OF fuel(1) 1(3)] show ?thesis by simp
  qed
  then obtain p5 where
    2: "r = Panic (Errorf ''exec %s: %s'' [AStr sbininit, AErr e])" "es4 = p5 @ [?e]"
      "list_all (only_calls (\<lambda>c. c = Chdir ''/root'' \<or> c = Stat sbininit)) p5"
    by blast
  have "list_all (only_calls before_exec) (pre @ p5)"
    using 1(4) 2(3)
    by (auto simp: list_all_iff before_exec_def only_calls_def split: event.splits)
  moreover have "es = (pre @ p5) @ [?e]" using 1(2) 2(2) by simp
  ultimately show ?thesis using 2(1) by blast
qed

lemma before_exec_simps:
  "\<not> before_exec (Exec p a env)" "\<not> before_exec (GoesMain [''start''])"
  by (simp_all add: before_exec_def before_finalize_def pivot_call_def switch_call_def)

lemma recovery_simps:
  "\<not> recovery_call (Exec p a env)" "\<not> recovery_call (GoesMain [''start''])"
  "\<not> recovery_call (Stat q)"
  by (simp_all add: kexec_args_def)

lemma Main_absent:
  assumes mem: "Sys (Stat sbininit) (Ret n (Some ENOENT)) \<in> set (events (Main fuel K s))"
  shows "(\<exists>pre rep post. events (Main fuel K s) =
            pre @ Sys (Stat sbininit) (Ret n (Some ENOENT))
                # Sys (GoesMain [''start'']) rep # post)
      \<and> (\<forall>p a env rep. Sys (Exec p a env) rep \<notin> set (events (Main fuel K s)))"
proof -
  let ?e = "Sys (Stat sbininit) (Ret n (Some ENOENT))"
  let ?body = "Main_body K (SplitList (getenv s ''goesroot'')) s"
  from Main_events [of fuel K s] obtain ed where
    m: "events (Main fuel K s) = events ?body @ ed" "list_all (only_calls recovery_call) ed"
    by blast
  obtain r s' es where run: "?body = (r, s', es)" by (cases ?body)
  from m(2) have "?e \<notin> set ed" by (auto dest: quiet_call)
  with mem m(1) run have "?e \<in> set es" by simp
  from Main_body_absent [OF run this] obtain pre rep where
    b: "es = pre @ [?e, Sys (GoesMain [''start'']) rep]" "list_all (only_calls before_exec) pre"
    by blast
  have "events (Main fuel K s) = pre @ ?e # Sys (GoesMain [''start'']) rep # ed"
    using m(1) run b(1) by simp
  moreover have "\<forall>p a env rep. Sys (Exec p a env) rep \<notin> set (pre @ ?e # Sys (GoesMain [''start'']) rep # ed)"
    using b(2) m(2) by (auto dest: quiet_call simp: before_exec_simps recovery_simps)
  ultimately show ?thesis by auto
qed

lemma Main_exec:
  assumes mem: "Sys (Exec sbininit a env) (Ret m (Some e)) \<in> set (events (Main fuel K s))"
  shows "(\<exists>pre post. events (Main fuel K s) =
            pre @ Sys (Exec sbininit a env) (Ret m (Some e))
                # PrintRecovered (Errorf ''exec %s: %s'' [AStr sbininit, AErr e]) # post)
      \<and> (\<forall>rep. Sys (GoesMain [''start'']) rep \<notin> set (events (Main fuel K s)))"
proof -
  let ?e = "Sys (Exec sbininit a env) (Ret m (Some e))"
  let ?p = "Errorf ''exec %s: %s'' [AStr sbininit, AErr e]"
  let ?body = "Main_body K (SplitList (getenv s ''goesroot'')) s"
  from Main_events [of fuel K s] obtain ed where
    m: "events (Main fuel K s) = events ?body @ ed" "list_all (only_calls recovery_call) ed"
      "\<forall>p. result ?body = Panic p \<longrightarrow> (\<exists>rest. ed = PrintRecovered p # rest)"
    by blast
  obtain r s' es where run: "?body = (r, s', es)" by (cases ?body)
  from m(2) have "?e \<notin> set ed" by (auto dest: quiet_call)
  with mem m(1) run have "?e \<in> set es" by simp
  from Main_body_exec [OF run this] obtain pre where
    b: "r = Panic ?p" "es = pre @ [?e]" "list_all (only_calls before_exec) pre"
    by blast
  from m(3) run b(1) obtain rest where d: "ed = PrintRecovered ?p # rest" by auto
  have "events (Main fuel K s) = pre @ ?e # PrintRecovered ?p # rest"
    using m(1) run b(2) d by simp
  moreover have "\<forall>rep. Sys (GoesMain [''start'']) rep \<notin> set (pre @ ?e # ed)"
    using b(3) m(2)
    by (auto dest: quiet_call simp: before_exec_simps recovery_simps kexec_args_def)
  ultimately show ?thesis using d by auto
qed

lemma runSbinInit_absent_run:
  assumes "K (Chdir ''/root'') (world s) = (Ret k None, w1)"
    and "K (Stat sbininit) w1 = (Ret n (Some ENOENT), w2)"
  shows "result (runSbinInit K s) = Val ()
     \<and> events (runSbinInit K s)
         = [Sys (Chdir ''/root'') (Ret k None), Sys (Stat sbininit) (Ret n (Some ENOENT))]"
  using assms
  by (simp add: runSbinInit_def bnd_def syscall_def sys_def setenv_def getenv_def ret_def
      panic_def isNotExist_def)

lemma runSbinInit_exec_run:
  assumes "K (Chdir ''/root'') (world s) = (Ret k None, w1)"
    and "K (Stat sbininit) w1 = (Ret n None, w2)"
    and "K (Exec sbininit [sbininit]
            [''PATH=/bin:/usr/bin'', ''SHELL=/bin/goes'', ''HOME=/root'',
             ''TERM='' @ (if getenv s ''TERM'' = [] then ''linux'' else getenv s ''TERM'')]) w2
         = (Ret m (Some e), w3)"
  shows "result (runSbinInit K s) = Panic (Errorf ''exec %s: %s'' [AStr sbininit, AErr e])
     \<and> events (runSbinInit K s)
         = [Sys (Chdir ''/root'') (Ret k None), Sys (Stat sbininit) (Ret n None),
            Sys (Exec sbininit [sbininit]
                  [''PATH=/bin:/usr/bin'', ''SHELL=/bin/goes'', ''HOME=/root'',
                   ''TERM='' @ (if getenv s ''TERM'' = [] then ''linux'' else getenv s ''TERM'')])
              (Ret m (Some e))]"
proof (cases "environ s ''TERM''")
  case None
  with assms show ?thesis
    by (simp add: runSbinInit_def bnd_def syscall_def sys_def setenv_def getenv_def ret_def
        panic_def isNotExist_def)
next
  case (Some v)
  with assms show ?thesis
    by (cases "v = []")
      (simp_all add: runSbinInit_def bnd_def syscall_def sys_def setenv_def getenv_def ret_def
        panic_def isNotExist_def)
qed

lemma noinit_run:
  "events (Main 1 noinit_kernel proc0) =
    [Sys Hook (Ret 0 None),
     Sys (Stat ''/root'') (Ret 0 None), Sys (Stat ''/tmp'') (Ret 0 None),
     Sys (Stat ''/var'') (Ret 0 None), Sys (Stat ''/var/run'') (Ret 0 None),
     Sys (Mount ''tmpfs'' ''/tmp'' ''tmpfs'' zero []) (Ret 0 None),
     Sys (Chdir ''/root'') (Ret 0 None),
     Sys (Stat sbininit) (Ret 0 (Some ENOENT)),
     Sys (GoesMain [''start'']) (Ret 0 None),
     Println [AStr banner],
     Sys (GoesMain [''cli'']) (Ret 0 None)]"
  by (simp add: run_defs noinit_kernel_def proc0_def sbininit_def)

lemma noexec_run:
  "events (Main 1 noexec_kernel proc0) =
    [Sys Hook (Ret 0 None),
     Sys (Stat ''/root'') (Ret 0 None), Sys (Stat ''/tmp'') (Ret 0 None),
     Sys (Stat ''/var'') (Ret 0 None), Sys (Stat ''/var/run'') (Ret 0 None),
     Sys (Mount ''tmpfs'' ''/tmp'' ''tmpfs'' zero []) (Ret 0 None),
     Sys (Chdir ''/root'') (Ret 0 None),
     Sys (Stat sbininit) (Ret 0 None),
     Sys (Exec sbininit [sbininit]
           [''PATH=/bin:/usr/bin'', ''SHELL=/bin/goes'', ''HOME=/root'', ''TERM=linux''])
       (Ret 0 (Some (OtherErr ''EACCES''))),
     PrintRecovered (Errorf ''exec %s: %s'' [AStr sbininit, AErr (OtherErr ''EACCES'')]),
     Println [AStr banner],
     Sys (GoesMain [''cli'']) (Ret 0 None)]"
  by (simp add: run_defs noexec_kernel_def proc0_def sbininit_def)

section \<open>Claims\<close>

text \<open>
  C7. The Emergency Shell Supervisor never returns. No run of \<open>emergencyShell\<close>, on any
  fuel and against any kernel, ends with a value. And whatever the interactive shell
  returns each time it is called (the list \<open>shell_replies\<close> of what the kernel answers
  to the shell call, turn after turn), no amount of fuel lets the loop finish: after
  \<open>fuel\<close> turns it is still running, it has called the shell once per turn, and its
  events are exactly, turn by turn, the banner, the shell call with the reply the
  kernel gave and, when that reply is an error other than end-of-input, the line that
  prints this error; the next turn follows at once, also after a clean end-of-input.
\<close>

theorem emergencyShell_never_returns:
  "(\<forall>u. result (emergencyShell fuel K s) \<noteq> Val u)
   \<and> (always_returns K (GoesMain [''cli'']) \<longrightarrow>
        result (emergencyShell fuel K s) = OutOfFuel
      \<and> length (shell_replies fuel K (world s)) = fuel
      \<and> events (emergencyShell fuel K s)
          = concat (map shell_iteration (shell_replies fuel K (world s))))"
  using emergencyShell_unroll [of K fuel s] emergencyShell_no_value [of fuel K s] by blast

theorem emergencyShell_never_returns_witness:
  "always_returns scripted_shell (GoesMain [''cli''])
   \<and> result (emergencyShell 3 scripted_shell proc_scripted) = OutOfFuel
   \<and> shell_replies 3 scripted_shell (world proc_scripted)
       = [(0, Some EOF), (0, None), (0, Some (OtherErr ''fail''))]
   \<and> events (emergencyShell 3 scripted_shell proc_scripted)
       = [Println [AStr banner], Sys (GoesMain [''cli'']) (Ret 0 (Some EOF)),
          Println [AStr banner], Sys (GoesMain [''cli'']) (Ret 0 None),
          Println [AStr banner], Sys (GoesMain [''cli'']) (Ret 0 (Some (OtherErr ''fail''))),
          Println [AErr (OtherErr ''fail'')]]"
proof -
  have h: "always_returns scripted_shell (GoesMain [''cli''])"
    by (simp add: always_returns_def scripted_shell_def)
  have r: "shell_replies 3 scripted_shell (world proc_scripted)
      = [(0, Some EOF), (0, None), (0, Some (OtherErr ''fail''))]"
    by (simp add: numeral_3_eq_3 scripted_shell_def proc_scripted_def)
  show ?thesis
    using h r emergencyShell_never_returns [of 3 scripted_shell proc_scripted]
    by (simp add: shell_iteration_def)
qed

text \<open>
  C5. If the bind-move of the staging path onto \<^verbatim>\<open>/\<close> fails, no \<^verbatim>\<open>chroot\<close> is performed
  and the orchestration aborts to the recovery boundary. In \<open>pivotRoot\<close>, for any staging
  path: when the bind-move call is answered with an error, \<open>pivotRoot\<close> panics with that
  error, the failed bind-move is the last thing it did, and it never called
  \<^verbatim>\<open>chroot\<close>. In \<open>Main\<close>: when the bind-move call of the run is answered with an error,
  the run never calls \<^verbatim>\<open>chroot\<close>, makes none of the calls of the steps that follow
  \<open>pivotRoot\<close> in the body of \<open>Main\<close>, and the event right after the failed bind-move is
  the outer deferred closure printing the recovered panic.
\<close>

theorem bind_move_failure_aborts:
  "(Sys (Mount mp ''/'' [] MS_MOVE []) (Ret n (Some e))
      \<in> set (events (pivotRoot K mp root script s)) \<longrightarrow>
      result (pivotRoot K mp root script s) = Panic (Errorf ''mount %s /: %s'' [AStr mp, AErr e])
    \<and> last (events (pivotRoot K mp root script s))
        = Sys (Mount mp ''/'' [] MS_MOVE []) (Ret n (Some e))
    \<and> (\<forall>p rep. Sys (Chroot p) rep \<notin> set (events (pivotRoot K mp root script s))))
   \<and> (Sys (Mount ''/newroot'' ''/'' [] MS_MOVE []) (Ret n (Some e))
      \<in> set (events (Main fuel K t)) \<longrightarrow>
      (\<forall>p rep. Sys (Chroot p) rep \<notin> set (events (Main fuel K t)))
    \<and> (\<forall>c rep. finalize_call c \<longrightarrow> Sys c rep \<notin> set (events (Main fuel K t)))
    \<and> (\<exists>pre post. events (Main fuel K t) =
          pre @ Sys (Mount ''/newroot'' ''/'' [] MS_MOVE []) (Ret n (Some e))
              # PrintRecovered (Errorf ''mount %s /: %s'' [AStr ''/newroot'', AErr e]) # post))"
proof (intro conjI impI)
  let ?e = "Sys (Mount mp ''/'' [] MS_MOVE []) (Ret n (Some e))"
  assume mem: "?e \<in> set (events (pivotRoot K mp root script s))"
  obtain r s' es where run: "pivotRoot K mp root script s = (r, s', es)"
    by (cases "pivotRoot K mp root script s")
  from pivotRoot_fail [OF run] mem run obtain pre where
    f: "r = Panic (Errorf ''mount %s /: %s'' [AStr mp, AErr e])" "es = pre @ [?e]"
      "list_all (only_calls (before_moveroot mp)) pre"
    by auto
  show "result (pivotRoot K mp root script s) = Panic (Errorf ''mount %s /: %s'' [AStr mp, AErr e])"
    using run f by simp
  show "last (events (pivotRoot K mp root script s)) = ?e"
    using run f by simp
  show "\<forall>p rep. Sys (Chroot p) rep \<notin> set (events (pivotRoot K mp root script s))"
    using run f by (auto dest: quiet_call simp: before_moveroot_def)
next
  let ?e = "Sys (Mount ''/newroot'' ''/'' [] MS_MOVE []) (Ret n (Some e))"
  assume mem: "?e \<in> set (events (Main fuel K t))"
  from Main_fail [OF mem] obtain pre post where
    f: "events (Main fuel K t) =
        pre @ ?e # PrintRecovered (Errorf ''mount %s /: %s'' [AStr ''/newroot'', AErr e]) # post"
      "list_all (only_calls (before_moveroot ''/newroot'')) pre"
      "list_all (only_calls recovery_call) post"
    by blast
  show "\<forall>p rep. Sys (Chroot p) rep \<notin> set (events (Main fuel K t))"
    using f by (auto dest: quiet_call simp: before_moveroot_def)
  show "\<forall>c rep. finalize_call c \<longrightarrow> Sys c rep \<notin> set (events (Main fuel K t))"
  proof (intro allI impI notI)
    fix c rep
    assume fc: "finalize_call c" and "Sys c rep \<in> set (events (Main fuel K t))"
    with f(1) consider "Sys c rep \<in> set pre" | "Sys c rep = ?e" | "Sys c rep \<in> set post"
      by auto
    then show False
    proof cases
      case 1
      with f(2) fc show False by (auto dest: quiet_call before_not_finalize)
    next
      case 2
      with fc show False by (simp add: finalize_call_def sbininit_def)
    next
      case 3
      with f(3) fc show False by (auto dest: quiet_call recovery_not_finalize)
    qed
  qed
  show "\<exists>pre post. events (Main fuel K t) =
      pre @ ?e # PrintRecovered (Errorf ''mount %s /: %s'' [AStr ''/newroot'', AErr e]) # post"
    using f(1) by blast
qed

theorem bind_move_failure_aborts_witness:
  "Sys (Mount ''/newroot'' ''/'' [] MS_MOVE []) (Ret 0 (Some (OtherErr ''EBUSY'')))
      \<in> set (events (Main 1 busy_kernel proc_root))
   \<and> (\<forall>p rep. Sys (Chroot p) rep \<notin> set (events (Main 1 busy_kernel proc_root)))
   \<and> (\<forall>rep. Sys (GoesMain [''start'']) rep \<notin> set (events (Main 1 busy_kernel proc_root)))
   \<and> drop 30 (events (Main 1 busy_kernel proc_root)) =
       [Sys (Mount ''/newroot'' ''/'' [] MS_MOVE []) (Ret 0 (Some (OtherErr ''EBUSY''))),
        PrintRecovered (Errorf ''mount %s /: %s'' [AStr ''/newroot'', AErr (OtherErr ''EBUSY'')]),
        Println [AStr banner],
        Sys (GoesMain [''cli'']) (Ret 0 None)]"
proof -
  have h: "Sys (Mount ''/newroot'' ''/'' [] MS_MOVE []) (Ret 0 (Some (OtherErr ''EBUSY'')))
      \<in> set (events (Main 1 busy_kernel proc_root))"
    unfolding busy_run by simp
  have d: "drop 30 (events (Main 1 busy_kernel proc_root)) =
       [Sys (Mount ''/newroot'' ''/'' [] MS_MOVE []) (Ret 0 (Some (OtherErr ''EBUSY''))),
        PrintRecovered (Errorf ''mount %s /: %s'' [AStr ''/newroot'', AErr (OtherErr ''EBUSY'')]),
        Println [AStr banner],
        Sys (GoesMain [''cli'']) (Ret 0 None)]"
    unfolding busy_run by simp
  from bind_move_failure_aborts
    [of "''/newroot''" 0 "OtherErr ''EBUSY''" busy_kernel "[]" "[]" proc0 1 proc_root] h
  have "(\<forall>p rep. Sys (Chroot p) rep \<notin> set (events (Main 1 busy_kernel proc_root)))
      \<and> (\<forall>c rep. finalize_call c \<longrightarrow> Sys c rep \<notin> set (events (Main 1 busy_kernel proc_root)))"
    by blast
  then show ?thesis using h d by (simp add: finalize_call_def)
qed

text \<open>
  C4. In every run of \<open>pivotRoot\<close>, the cleanup of the old root begins only after the
  skeleton population and the relocation of the virtual filesystems have completed
  successfully and the working directory has been changed into the staging path.
  Whenever an \<^verbatim>\<open>unlink\<close> or \<^verbatim>\<open>rmdir\<close> of the old root is among the events of a run, the
  run splits as follows: the mount of the new root (and the boot script) returned,
  then \<open>makeRootDirs\<close>, \<open>makeRootFiles\<close>, \<open>makeRootLinks\<close> and \<open>moveVirtualFileSystems\<close>
  each returned normally, one from the state the other left, then the kernel answered
  \<^verbatim>\<open>chdir\<close> into the staging path without error, and only then, after that event, comes the
  cleanup event. Nothing before the \<^verbatim>\<open>chdir\<close> is a cleanup event, and the events of the
  four steps show their success: every skeleton directory, file and link was found
  there or its creation (for a file, its copy) succeeded, and every move of a virtual
  filesystem succeeded.
\<close>

theorem cleanup_after_population:
  assumes "e \<in> set (events (pivotRoot K mp root script s))" and "is_cleanup e"
  shows "\<exists>s0 s1 s2 s3 s4 pre es1 es2 es3 es4 n post.
      pivot_mount K mp root script s = (Val (), s0, pre)
    \<and> makeRootDirs K mp s0 = (Val (), s1, es1)
    \<and> makeRootFiles K mp s1 = (Val (), s2, es2)
    \<and> makeRootLinks K mp s2 = (Val (), s3, es3)
    \<and> moveVirtualFileSystems K mp s3 = (Val (), s4, es4)
    \<and> fst (K (Chdir mp) (world s4)) = Ret n None
    \<and> events (pivotRoot K mp root script s)
        = pre @ es1 @ es2 @ es3 @ es4 @ Sys (Chdir mp) (Ret n None) # post
    \<and> e \<in> set post
    \<and> (\<forall>e'\<in>set (pre @ es1 @ es2 @ es3 @ es4). \<not> is_cleanup e')
    \<and> (\<forall>d\<in>set root_dirs.
          (\<exists>k r. Sys (Stat (mp @ fst d)) (Ret k r) \<in> set es1 \<and> \<not> isNotExist r)
        \<or> (\<exists>k. Sys (Mkdir (mp @ fst d) (snd d)) (Ret k None) \<in> set es1))
    \<and> (\<forall>f\<in>set root_files.
          (\<exists>k r. Sys (Stat (mp @ snd f)) (Ret k r) \<in> set es2 \<and> \<not> isNotExist r)
        \<or> (\<exists>k. Sys (Copy (mp @ snd f) (fst f)) (Ret k None) \<in> set es2))
    \<and> (\<forall>l\<in>set root_links.
          (\<exists>k r. Sys (Stat (mp @ snd l)) (Ret k r) \<in> set es3 \<and> \<not> isNotExist r)
        \<or> (\<exists>k. Sys (Symlink (fst l) (mp @ snd l)) (Ret k None) \<in> set es3))
    \<and> (\<forall>mv\<in>set vfs_moves.
          \<exists>k. Sys (Mount (fst mv) (mp @ fst (snd mv)) [] MS_MOVE []) (Ret k None) \<in> set es4)"
proof -
  obtain r s' es where run: "pivotRoot K mp root script s = (r, s', es)"
    by (cases "pivotRoot K mp root script s")
  with assms(1) have "e \<in> set es" by simp
  from pivotRoot_cleanup [OF run this assms(2)]
  obtain s0 s1 s2 s3 s4 pre es1 es2 es3 es4 n post where
    f: "pivot_mount K mp root script s = (Val (), s0, pre)"
      "makeRootDirs K mp s0 = (Val (), s1, es1)"
      "makeRootFiles K mp s1 = (Val (), s2, es2)"
      "makeRootLinks K mp s2 = (Val (), s3, es3)"
      "moveVirtualFileSystems K mp s3 = (Val (), s4, es4)"
      "fst (K (Chdir mp) (world s4)) = Ret n None"
      "es = pre @ es1 @ es2 @ es3 @ es4 @ Sys (Chdir mp) (Ret n None) # post"
      "e \<in> set post"
      "\<forall>e'\<in>set (pre @ es1 @ es2 @ es3 @ es4). \<not> is_cleanup e'"
    by blast
  have d: "\<forall>d\<in>set root_dirs.
          (\<exists>k r. Sys (Stat (mp @ fst d)) (Ret k r) \<in> set es1 \<and> \<not> isNotExist r)
        \<or> (\<exists>k. Sys (Mkdir (mp @ fst d) (snd d)) (Ret k None) \<in> set es1)"
    using makeRootDirs_Val [OF f(2)] by blast
  have fl: "\<forall>f\<in>set root_files.
          (\<exists>k r. Sys (Stat (mp @ snd f)) (Ret k r) \<in> set es2 \<and> \<not> isNotExist r)
        \<or> (\<exists>k. Sys (Copy (mp @ snd f) (fst f)) (Ret k None) \<in> set es2)"
    using makeRootFiles_Val [OF f(3)] by blast
  have l: "\<forall>l\<in>set root_links.
          (\<exists>k r. Sys (Stat (mp @ snd l)) (Ret k r) \<in> set es3 \<and> \<not> isNotExist r)
        \<or> (\<exists>k. Sys (Symlink (fst l) (mp @ snd l)) (Ret k None) \<in> set es3)"
    using makeRootLinks_Val [OF f(4)] by blast
  have m: "\<forall>mv\<in>set vfs_moves.
          \<exists>k. Sys (Mount (fst mv) (mp @ fst (snd mv)) [] MS_MOVE []) (Ret k None) \<in> set es4"
    using moveVirtualFileSystems_Val [OF f(5)] by blast
  have "events (pivotRoot K mp root script s)
        = pre @ es1 @ es2 @ es3 @ es4 @ Sys (Chdir mp) (Ret n None) # post"
    using run f(7) by simp
  with f(1-6) f(8,9) d fl l m show ?thesis by blast
qed

theorem cleanup_after_population_witness:
  "Sys (Unlink ''/usr/bin/gdbserver'') (Ret 0 None)
     \<in> set (events (pivotRoot fresh_kernel ''/newroot'' ''/dev/sda1'' ''/etc/boot.conf'' proc0))
   \<and> is_cleanup (Sys (Unlink ''/usr/bin/gdbserver'') (Ret 0 None))
   \<and> events (pivotRoot fresh_kernel ''/newroot'' ''/dev/sda1'' ''/etc/boot.conf'' proc0)
       = fresh_pivot_events
   \<and> (\<exists>pre post n.
        events (pivotRoot fresh_kernel ''/newroot'' ''/dev/sda1'' ''/etc/boot.conf'' proc0)
          = pre @ Sys (Chdir ''/newroot'') (Ret n None) # post
      \<and> Sys (Unlink ''/usr/bin/gdbserver'') (Ret 0 None) \<in> set post
      \<and> list_all (\<lambda>e. \<not> is_cleanup e) pre)"
proof -
  let ?run = "pivotRoot fresh_kernel ''/newroot'' ''/dev/sda1'' ''/etc/boot.conf'' proc0"
  let ?e = "Sys (Unlink ''/usr/bin/gdbserver'') (Ret 0 None)"
  have h1: "?e \<in> set (events ?run)"
    unfolding fresh_run by (simp add: fresh_pivot_events_def)
  have h2: "is_cleanup ?e" by simp
  from cleanup_after_population [OF h1 h2]
  obtain pre es1 es2 es3 es4 n post where
    "events ?run = pre @ es1 @ es2 @ es3 @ es4 @ Sys (Chdir ''/newroot'') (Ret n None) # post"
    "?e \<in> set post" "\<forall>e'\<in>set (pre @ es1 @ es2 @ es3 @ es4). \<not> is_cleanup e'"
    by blast
  then have "events ?run = (pre @ es1 @ es2 @ es3 @ es4) @ Sys (Chdir ''/newroot'') (Ret n None) # post
      \<and> ?e \<in> set post \<and> list_all (\<lambda>e. \<not> is_cleanup e) (pre @ es1 @ es2 @ es3 @ es4)"
    by (simp add: list_all_iff)
  then have "\<exists>pre post n. events ?run = pre @ Sys (Chdir ''/newroot'') (Ret n None) # post
      \<and> ?e \<in> set post \<and> list_all (\<lambda>e. \<not> is_cleanup e) pre"
    by blast
  with h1 h2 fresh_run show ?thesis by blast
qed

text \<open>
  C8. In the finalizer \<open>runSbinInit\<close>, an absent \<^verbatim>\<open>/sbin/init\<close> is not an error: the
  function returns normally and \<open>Main\<close> goes on to \<^verbatim>\<open>goes.Main("start")\<close>; an
  \<^verbatim>\<open>/sbin/init\<close> that exists and cannot be executed is fatal. Once the kernel has let
  \<open>runSbinInit\<close> change directory to \<^verbatim>\<open>/root\<close>: if it answers the \<^verbatim>\<open>stat\<close> of \<^verbatim>\<open>/sbin/init\<close>
  with "does not exist", \<open>runSbinInit\<close> returns a value and has made these two calls
  only; if it answers that the file is there and answers the \<^verbatim>\<open>exec\<close> with an error,
  \<open>runSbinInit\<close> panics with that error right after the \<^verbatim>\<open>exec\<close>. In a run of \<open>Main\<close>: the
  event after a \<^verbatim>\<open>stat\<close> of \<^verbatim>\<open>/sbin/init\<close> answered "does not exist" is the call of
  \<^verbatim>\<open>start\<close>, and the run has no \<^verbatim>\<open>exec\<close>; the event after a failed \<^verbatim>\<open>exec\<close> of
  \<^verbatim>\<open>/sbin/init\<close> is the outer deferred closure printing the recovered panic, and the run
  never calls \<^verbatim>\<open>start\<close>.
\<close>

theorem runSbinInit_absent_or_unexecutable:
  "(K (Chdir ''/root'') (world s) = (Ret k None, w1) \<longrightarrow>
    K (Stat sbininit) w1 = (Ret n (Some ENOENT), w2) \<longrightarrow>
      result (runSbinInit K s) = Val ()
    \<and> events (runSbinInit K s)
        = [Sys (Chdir ''/root'') (Ret k None), Sys (Stat sbininit) (Ret n (Some ENOENT))])
   \<and> (K (Chdir ''/root'') (world s) = (Ret k None, w1) \<longrightarrow>
      K (Stat sbininit) w1 = (Ret n None, w2) \<longrightarrow>
      K (Exec sbininit [sbininit]
            [''PATH=/bin:/usr/bin'', ''SHELL=/bin/goes'', ''HOME=/root'',
             ''TERM='' @ (if getenv s ''TERM'' = [] then ''linux'' else getenv s ''TERM'')]) w2
         = (Ret m (Some e), w3) \<longrightarrow>
      result (runSbinInit K s) = Panic (Errorf ''exec %s: %s'' [AStr sbininit, AErr e])
    \<and> events (runSbinInit K s)
        = [Sys (Chdir ''/root'') (Ret k None), Sys (Stat sbininit) (Ret n None),
           Sys (Exec sbininit [sbininit]
                 [''PATH=/bin:/usr/bin'', ''SHELL=/bin/goes'', ''HOME=/root'',
                  ''TERM='' @ (if getenv s ''TERM'' = [] then ''linux'' else getenv s ''TERM'')])
             (Ret m (Some e))])
   \<and> (Sys (Stat sbininit) (Ret n (Some ENOENT)) \<in> set (events (Main fuel K t)) \<longrightarrow>
      (\<exists>pre rep post. events (Main fuel K t) =
          pre @ Sys (Stat sbininit) (Ret n (Some ENOENT)) # Sys (GoesMain [''start'']) rep # post)
    \<and> (\<forall>p a env rep. Sys (Exec p a env) rep \<notin> set (events (Main fuel K t))))
   \<and> (Sys (Exec sbininit a env) (Ret m (Some e)) \<in> set (events (Main fuel K t)) \<longrightarrow>
      (\<exists>pre post. events (Main fuel K t) =
          pre @ Sys (Exec sbininit a env) (Ret m (Some e))
              # PrintRecovered (Errorf ''exec %s: %s'' [AStr sbininit, AErr e]) # post)
    \<and> (\<forall>rep. Sys (GoesMain [''start'']) rep \<notin> set (events (Main fuel K t))))"
  using runSbinInit_absent_run [of K s k w1 n w2] runSbinInit_exec_run [of K s k w1 n w2 m e w3]
    Main_absent [of n fuel K t] Main_exec [of a env m e fuel K t]
  by blast

theorem runSbinInit_absent_or_unexecutable_witness:
  "result (runSbinInit noinit_kernel proc0) = Val ()
   \<and> events (runSbinInit noinit_kernel proc0)
       = [Sys (Chdir ''/root'') (Ret 0 None), Sys (Stat sbininit) (Ret 0 (Some ENOENT))]
   \<and> result (runSbinInit noexec_kernel proc0)
       = Panic (Errorf ''exec %s: %s'' [AStr sbininit, AErr (OtherErr ''EACCES'')])
   \<and> events (runSbinInit noexec_kernel proc0)
       = [Sys (Chdir ''/root'') (Ret 0 None), Sys (Stat sbininit) (Ret 0 None),
          Sys (Exec sbininit [sbininit]
                [''PATH=/bin:/usr/bin'', ''SHELL=/bin/goes'', ''HOME=/root'', ''TERM=linux''])
            (Ret 0 (Some (OtherErr ''EACCES'')))]
   \<and> drop 7 (events (Main 1 noinit_kernel proc0))
       = [Sys (Stat sbininit) (Ret 0 (Some ENOENT)), Sys (GoesMain [''start'']) (Ret 0 None),
          Println [AStr banner], Sys (GoesMain [''cli'']) (Ret 0 None)]
   \<and> (\<forall>p a env rep. Sys (Exec p a env) rep \<notin> set (events (Main 1 noinit_kernel proc0)))
   \<and> drop 8 (events (Main 1 noexec_kernel proc0))
       = [Sys (Exec sbininit [sbininit]
                [''PATH=/bin:/usr/bin'', ''SHELL=/bin/goes'', ''HOME=/root'', ''TERM=linux''])
            (Ret 0 (Some (OtherErr ''EACCES''))),
          PrintRecovered (Errorf ''exec %s: %s'' [AStr sbininit, AErr (OtherErr ''EACCES'')]),
          Println [AStr banner], Sys (GoesMain [''cli'']) (Ret 0 None)]
   \<and> (\<forall>rep. Sys (GoesMain [''start'']) rep \<notin> set (events (Main 1 noexec_kernel proc0)))"
proof -
  have a1: "noinit_kernel (Chdir ''/root'') (world proc0) = (Ret 0 None, ())"
    and a2: "noinit_kernel (Stat sbininit) () = (Ret 0 (Some ENOENT), ())"
    by (simp_all add: noinit_kernel_def)
  have b1: "noexec_kernel (Chdir ''/root'') (world proc0) = (Ret 0 None, ())"
    and b2: "noexec_kernel (Stat sbininit) () = (Ret 0 None, ())"
    and b3: "noexec_kernel (Exec sbininit [sbininit]
            [''PATH=/bin:/usr/bin'', ''SHELL=/bin/goes'', ''HOME=/root'',
             ''TERM='' @ (if getenv proc0 ''TERM'' = [] then ''linux'' else getenv proc0 ''TERM'')]) ()
         = (Ret 0 (Some (OtherErr ''EACCES'')), ())"
    by (simp_all add: noexec_kernel_def)
  have t: "getenv proc0 ''TERM'' = []" by (simp add: getenv_def proc0_def)
  have a3: "Sys (Stat sbininit) (Ret 0 (Some ENOENT)) \<in> set (events (Main 1 noinit_kernel proc0))"
    unfolding noinit_run by simp
  have b4: "Sys (Exec sbininit [sbininit]
                [''PATH=/bin:/usr/bin'', ''SHELL=/bin/goes'', ''HOME=/root'', ''TERM=linux''])
            (Ret 0 (Some (OtherErr ''EACCES''))) \<in> set (events (Main 1 noexec_kernel proc0))"
    unfolding noexec_run by simp
  have d1: "drop 7 (events (Main 1 noinit_kernel proc0))
       = [Sys (Stat sbininit) (Ret 0 (Some ENOENT)), Sys (GoesMain [''start'']) (Ret 0 None),
          Println [AStr banner], Sys (GoesMain [''cli'']) (Ret 0 None)]"
    unfolding noinit_run by simp
  have d2: "drop 8 (events (Main 1 noexec_kernel proc0))
       = [Sys (Exec sbininit [sbininit]
                [''PATH=/bin:/usr/bin'', ''SHELL=/bin/goes'', ''HOME=/root'', ''TERM=linux''])
            (Ret 0 (Some (OtherErr ''EACCES''))),
          PrintRecovered (Errorf ''exec %s: %s'' [AStr sbininit, AErr (OtherErr ''EACCES'')]),
          Println [AStr banner], Sys (GoesMain [''cli'']) (Ret 0 None)]"
    unfolding noexec_run by simp
  from runSbinInit_absent_or_unexecutable
    [of noinit_kernel proc0 0 "()" 0 "()" _ _ _ 1 proc0] a1 a2 a3
  have A: "result (runSbinInit noinit_kernel proc0) = Val ()
      \<and> events (runSbinInit noinit_kernel proc0)
         = [Sys (Chdir ''/root'') (Ret 0 None), Sys (Stat sbininit) (Ret 0 (Some ENOENT))]
      \<and> (\<forall>p a env rep. Sys (Exec p a env) rep \<notin> set (events (Main 1 noinit_kernel proc0)))"
    by blast
  from runSbinInit_absent_or_unexecutable
    [of noexec_kernel proc0 0 "()" 0 "()" 0 "OtherErr ''EACCES''" "()" 1 proc0 "[sbininit]"
      "[''PATH=/bin:/usr/bin'', ''SHELL=/bin/goes'', ''HOME=/root'', ''TERM=linux'']"]
    b1 b2 b3 b4
  have B: "result (runSbinInit noexec_kernel proc0)
         = Panic (Errorf ''exec %s: %s'' [AStr sbininit, AErr (OtherErr ''EACCES'')])
      \<and> events (runSbinInit noexec_kernel proc0)
         = [Sys (Chdir ''/root'') (Ret 0 None), Sys (Stat sbininit) (Ret 0 None),
            Sys (Exec sbininit [sbininit]
                [''PATH=/bin:/usr/bin'', ''SHELL=/bin/goes'', ''HOME=/root'',
                 ''TERM='' @ (if getenv proc0 ''TERM'' = [] then ''linux'' else getenv proc0 ''TERM'')])
              (Ret 0 (Some (OtherErr ''EACCES'')))]
      \<and> (\<forall>rep. Sys (GoesMain [''start'']) rep \<notin> set (events (Main 1 noexec_kernel proc0)))"
    by blast
  from A B d1 d2 t show ?thesis by simp
qed

end
